theory Spec2Isabelle
  imports Main "HOL-Library.Word"
begin

unbundle bit_operations_syntax

section \<open>Configuration: \<^verbatim>\<open>LoadConfig\<close> and \<^verbatim>\<open>validateConfig\<close>\<close>

text \<open>
  \<^verbatim>\<open>time.Duration\<close> is a signed 64-bit count of nanoseconds; Go's \<^verbatim>\<open>int\<close> is taken at
  its 64-bit width. Port numbers are only compared, never computed with, so they are
  plain integers.
\<close>

type_synonym duration = "64 word"

record ForwardConfig =
  Namespace :: string
  Service :: string
  Type :: string
  LocalPort :: int
  RemotePort :: int

record ClusterConfig =
  Name :: string
  Kubeconfig :: string
  Context :: string
  Forwards :: "ForwardConfig list"

record Config =
  CheckInterval :: duration
  ReconnectDelay :: duration
  Clusters :: "ClusterConfig list"

text \<open>One constructor for each \<^verbatim>\<open>fmt.Errorf\<close> of \<^verbatim>\<open>validateConfig\<close>, with its arguments.\<close>

datatype ConfigError =
    NoClusters
  | ClusterNoName nat
  | DuplicateClusterName string
  | NoKubeconfigPath string
  | KubeconfigNotFound string string
  | NoForwards string
  | ForwardNoNamespace string
  | ForwardNoService string
  | DuplicateForward string string string
  | InvalidType string string string string
  | InvalidLocalPort string string string int
  | InvalidRemotePort string string string int
  | DuplicateLocalPort int string string

definition forwardKey :: "string \<Rightarrow> ForwardConfig \<Rightarrow> string" where
  "forwardKey cname forward = cname @ ''/'' @ Namespace forward @ ''/'' @ Service forward"

text \<open>
  The inner loop of \<^verbatim>\<open>validateConfig\<close> over \<^verbatim>\<open>cluster.Forwards\<close>. The two Go maps are
  threaded through: \<^verbatim>\<open>forwardKeys\<close> (fresh for every cluster) and \<^verbatim>\<open>localPorts\<close> (one for
  the whole file). The result is the first error, or the updated \<^verbatim>\<open>localPorts\<close>.
\<close>

fun validateForwards ::
  "string \<Rightarrow> (string \<rightharpoonup> bool) \<Rightarrow> (int \<rightharpoonup> string) \<Rightarrow> ForwardConfig list
    \<Rightarrow> ConfigError + (int \<rightharpoonup> string)" where
  "validateForwards cname forwardKeys localPorts [] = Inr localPorts"
| "validateForwards cname forwardKeys localPorts (forward # rest) =
    (if Namespace forward = [] then Inl (ForwardNoNamespace cname)
     else if Service forward = [] then Inl (ForwardNoService cname)
     else if forwardKeys (forwardKey cname forward) = Some True
       then Inl (DuplicateForward (Service forward) (Namespace forward) cname)
     else if Type forward \<noteq> ''service'' \<and> Type forward \<noteq> ''pod''
       then Inl (InvalidType (Namespace forward) (Service forward) cname (Type forward))
     else if LocalPort forward < 1 \<or> LocalPort forward > 65535
       then Inl (InvalidLocalPort (Namespace forward) (Service forward) cname (LocalPort forward))
     else if RemotePort forward < 1 \<or> RemotePort forward > 65535
       then Inl (InvalidRemotePort (Namespace forward) (Service forward) cname (RemotePort forward))
     else (case localPorts (LocalPort forward) of
             Some existingForward \<Rightarrow>
               Inl (DuplicateLocalPort (LocalPort forward) existingForward (forwardKey cname forward))
           | None \<Rightarrow>
               validateForwards cname
                 (forwardKeys(forwardKey cname forward \<mapsto> True))
                 (localPorts(LocalPort forward \<mapsto> forwardKey cname forward)) rest))"

text \<open>
  The outer loop over \<^verbatim>\<open>config.Clusters\<close>, with the index \<^verbatim>\<open>i\<close>. The file system is the
  parameter \<open>notExist\<close>: whether \<^verbatim>\<open>os.Stat\<close> of a path fails with a not-exist error.
\<close>

fun validateClusters ::
  "(string \<Rightarrow> bool) \<Rightarrow> nat \<Rightarrow> (string \<rightharpoonup> bool) \<Rightarrow> (int \<rightharpoonup> string) \<Rightarrow> ClusterConfig list
    \<Rightarrow> ConfigError option" where
  "validateClusters notExist i clusterNames localPorts [] = None"
| "validateClusters notExist i clusterNames localPorts (cluster # rest) =
    (if Name cluster = [] then Some (ClusterNoName i)
     else if clusterNames (Name cluster) = Some True then Some (DuplicateClusterName (Name cluster))
     else if Kubeconfig cluster = [] then Some (NoKubeconfigPath (Name cluster))
     else if notExist (Kubeconfig cluster)
       then Some (KubeconfigNotFound (Name cluster) (Kubeconfig cluster))
     else if Forwards cluster = [] then Some (NoForwards (Name cluster))
     else (case validateForwards (Name cluster) Map.empty localPorts (Forwards cluster) of
             Inl err \<Rightarrow> Some err
           | Inr localPorts' \<Rightarrow>
               validateClusters notExist (Suc i) (clusterNames(Name cluster \<mapsto> True))
                 localPorts' rest))"

definition validateConfig :: "(string \<Rightarrow> bool) \<Rightarrow> Config \<Rightarrow> ConfigError option" where
  "validateConfig notExist config =
     (if Clusters config = [] then Some NoClusters
      else validateClusters notExist 0 Map.empty Map.empty (Clusters config))"

text \<open>
  \<^verbatim>\<open>LoadConfig\<close> after the file has been read and unmarshalled into \<open>parsed\<close>: the two
  defaults, then \<^verbatim>\<open>validateConfig\<close>; an error is returned to \<^verbatim>\<open>main\<close>, which exits.
\<close>

definition second :: duration where
  "second = 1000000000"

definition LoadConfig :: "(string \<Rightarrow> bool) \<Rightarrow> Config \<Rightarrow> ConfigError + Config" where
  "LoadConfig notExist parsed =
     (let config = parsed\<lparr>CheckInterval :=
            (if CheckInterval parsed = 0 then 10 * second else CheckInterval parsed)\<rparr>;
          config = config\<lparr>ReconnectDelay :=
            (if ReconnectDelay config = 0 then 5 * second else ReconnectDelay config)\<rparr>
      in case validateConfig notExist config of
           Some err \<Rightarrow> Inl err
         | None \<Rightarrow> Inr config)"

definition allForwards :: "Config \<Rightarrow> ForwardConfig list" where
  "allForwards config = concat (map Forwards (Clusters config))"

definition portInRange :: "int \<Rightarrow> bool" where
  "portInRange p = (1 \<le> p \<and> p \<le> 65535)"

text \<open>What the validation asks of a forward and of a cluster, read off the checks.\<close>

definition validForward :: "ForwardConfig \<Rightarrow> bool" where
  "validForward f = (Namespace f \<noteq> [] \<and> Service f \<noteq> []
     \<and> (Type f = ''service'' \<or> Type f = ''pod'')
     \<and> portInRange (LocalPort f) \<and> portInRange (RemotePort f))"

definition validCluster :: "(string \<Rightarrow> bool) \<Rightarrow> ClusterConfig \<Rightarrow> bool" where
  "validCluster notExist c = (Name c \<noteq> [] \<and> Kubeconfig c \<noteq> [] \<and> \<not> notExist (Kubeconfig c)
     \<and> Forwards c \<noteq> [] \<and> (\<forall>f \<in> set (Forwards c). validForward f)
     \<and> distinct (map (forwardKey (Name c)) (Forwards c)))"

definition accepted :: "(string \<Rightarrow> bool) \<Rightarrow> Config \<Rightarrow> bool" where
  "accepted notExist config = (\<exists>c. LoadConfig notExist config = Inr c)"

text \<open>A configuration of one cluster with one forward, everything but the ports fixed.\<close>

definition oneForward :: "int \<Rightarrow> int \<Rightarrow> Config" where
  "oneForward lp rp =
     \<lparr>CheckInterval = 0, ReconnectDelay = 0,
      Clusters = [\<lparr>Name = ''c1'', Kubeconfig = ''/k'', Context = [],
        Forwards = [\<lparr>Namespace = ''default'', Service = ''api'', Type = ''service'',
          LocalPort = lp, RemotePort = rp\<rparr>]\<rparr>]\<rparr>"

text \<open>Two clusters with one forward each, on the two boundary ports.\<close>

definition cfg2 :: Config where
  "cfg2 = \<lparr>CheckInterval = 0, ReconnectDelay = 0,
      Clusters = [
        \<lparr>Name = ''c1'', Kubeconfig = ''/k'', Context = [],
         Forwards = [\<lparr>Namespace = ''default'', Service = ''api'', Type = ''service'',
          LocalPort = 1, RemotePort = 65535\<rparr>]\<rparr>,
        \<lparr>Name = ''c2'', Kubeconfig = ''/k'', Context = [],
         Forwards = [\<lparr>Namespace = ''default'', Service = ''api'', Type = ''pod'',
          LocalPort = 65535, RemotePort = 1\<rparr>]\<rparr>]\<rparr>"

section \<open>Port conflicts: the functions of \<^verbatim>\<open>portconflict.go\<close>\<close>

subsection \<open>The string functions of the Go library that the file calls\<close>

text \<open>
  Strings are byte lists. \<^verbatim>\<open>strings.Index\<close> returns \<^verbatim>\<open>-1\<close> when the substring does not
  occur: here \<open>None\<close>.
\<close>

fun strings_Index :: "string \<Rightarrow> string \<Rightarrow> nat option" where
  "strings_Index [] substr = (if substr = [] then Some 0 else None)"
| "strings_Index (c # s) substr =
     (if take (length substr) (c # s) = substr then Some 0
      else map_option Suc (strings_Index s substr))"

definition strings_Contains :: "string \<Rightarrow> string \<Rightarrow> bool" where
  "strings_Contains s substr = (strings_Index s substr \<noteq> None)"

text \<open>\<^verbatim>\<open>strings.LastIndex\<close> for a separator of one byte, as it is called.\<close>

fun strings_LastIndex :: "string \<Rightarrow> char \<Rightarrow> nat option" where
  "strings_LastIndex [] sep = None"
| "strings_LastIndex (c # s) sep =
     (case strings_LastIndex s sep of
        Some i \<Rightarrow> Some (Suc i)
      | None \<Rightarrow> if c = sep then Some 0 else None)"

text \<open>\<^verbatim>\<open>strings.Split\<close> for a separator of one byte: the empty string gives one empty part.\<close>

fun strings_Split :: "string \<Rightarrow> char \<Rightarrow> string list" where
  "strings_Split [] sep = [[]]"
| "strings_Split (c # s) sep =
     (if c = sep then [] # strings_Split s sep
      else (case strings_Split s sep of
              part # parts \<Rightarrow> (c # part) # parts
            | [] \<Rightarrow> [[c]]))"

text \<open>
  \<^verbatim>\<open>strings.TrimSpace\<close> removes the leading and the trailing white space of Unicode from a
  string of UTF-8. \<open>whiteSpace\<close> lists the encodings of the code points for which
  \<^verbatim>\<open>unicode.IsSpace\<close> holds: tab, line feed, vertical tab, form feed, carriage return, space,
  U+0085, U+00A0, U+1680, U+2000 to U+200A, U+2028, U+2029, U+202F, U+205F and U+3000. No
  encoding is the beginning or the end of another, and a byte that starts no valid encoding
  is no white space, so trimming is the repeated removal of one of them from the front,
  and then from the back of what is left.
\<close>

definition whiteSpace :: "string list" where
  "whiteSpace =
     [[CHR 0x09], [CHR 0x0A], [CHR 0x0B], [CHR 0x0C], [CHR 0x0D], [CHR 0x20],
      [CHR 0xC2, CHR 0x85], [CHR 0xC2, CHR 0xA0], [CHR 0xE1, CHR 0x9A, CHR 0x80],
      [CHR 0xE2, CHR 0x80, CHR 0x80], [CHR 0xE2, CHR 0x80, CHR 0x81],
      [CHR 0xE2, CHR 0x80, CHR 0x82], [CHR 0xE2, CHR 0x80, CHR 0x83],
      [CHR 0xE2, CHR 0x80, CHR 0x84], [CHR 0xE2, CHR 0x80, CHR 0x85],
      [CHR 0xE2, CHR 0x80, CHR 0x86], [CHR 0xE2, CHR 0x80, CHR 0x87],
      [CHR 0xE2, CHR 0x80, CHR 0x88], [CHR 0xE2, CHR 0x80, CHR 0x89],
      [CHR 0xE2, CHR 0x80, CHR 0x8A], [CHR 0xE2, CHR 0x80, CHR 0xA8],
      [CHR 0xE2, CHR 0x80, CHR 0xA9], [CHR 0xE2, CHR 0x80, CHR 0xAF],
      [CHR 0xE2, CHR 0x81, CHR 0x9F], [CHR 0xE3, CHR 0x80, CHR 0x80]]"

text \<open>The length of the member of \<open>encs\<close> that \<open>s\<close> begins with, 0 when there is none.\<close>

definition leading :: "string list \<Rightarrow> string \<Rightarrow> nat" where
  "leading encs s =
     (case find (\<lambda>e. take (length e) s = e) encs of
        None \<Rightarrow> 0
      | Some e \<Rightarrow> length e)"

function dropLeading :: "string list \<Rightarrow> string \<Rightarrow> string" where
  "dropLeading encs s =
     (if s = [] \<or> leading encs s = 0 then s
      else dropLeading encs (drop (leading encs s) s))"
  by pat_completeness auto
termination
  by (relation "measure (\<lambda>(encs, s). length s)") auto

definition strings_TrimSpace :: "string \<Rightarrow> string" where
  "strings_TrimSpace s =
     rev (dropLeading (map rev whiteSpace) (rev (dropLeading whiteSpace s)))"

text \<open>
  \<^verbatim>\<open>strconv.Atoi\<close>: an optional sign, then decimal digits only, and a value that fits
  64 bits; anything else is an error (\<open>None\<close>).
\<close>

definition isDigit :: "char \<Rightarrow> bool" where
  "isDigit c = (48 \<le> (of_char c :: nat) \<and> (of_char c :: nat) \<le> 57)"

definition digitsValue :: "string \<Rightarrow> nat" where
  "digitsValue ds = foldl (\<lambda>acc c. 10 * acc + (of_char c - 48)) 0 ds"

definition strconv_Atoi :: "string \<Rightarrow> int option" where
  "strconv_Atoi s =
     (let (neg, ds) =
        (case s of
           [] \<Rightarrow> (False, s)
         | c # r \<Rightarrow> if c = CHR ''-'' then (True, r) else if c = CHR ''+'' then (False, r)
                    else (False, s))
      in if ds = [] \<or> \<not> list_all isDigit ds then None
         else (let v = (if neg then - int (digitsValue ds) else int (digitsValue ds))
               in if v < - (2 ^ 63) \<or> 2 ^ 63 \<le> v then None else Some v))"

text \<open>The verb \<^verbatim>\<open>%d\<close> of \<^verbatim>\<open>fmt.Sprintf\<close>.\<close>

fun natDigits :: "nat \<Rightarrow> string" where
  "natDigits n =
     (if n < 10 then [''0123456789'' ! n]
      else natDigits (n div 10) @ [''0123456789'' ! (n mod 10)])"

definition itoa :: "int \<Rightarrow> string" where
  "itoa i = (if i < 0 then CHR ''-'' # natDigits (nat (- i)) else natDigits (nat i))"

subsection \<open>The operating system, as far as the file asks it\<close>

text \<open>
  What the resolver reads from outside: the output of the two commands for a port
  (\<open>None\<close> when \<^verbatim>\<open>cmd.Output\<close> returns an error), the content of a file (\<open>None\<close> when
  \<^verbatim>\<open>os.ReadFile\<close> fails), the program's own PID, and the errors of \<^verbatim>\<open>os.FindProcess\<close>
  and of \<^verbatim>\<open>process.Signal\<close> for a PID (\<open>None\<close> for \<^verbatim>\<open>nil\<close>).
\<close>

record Env =
  lsofOutput :: "int \<Rightarrow> string option"
  ssOutput :: "int \<Rightarrow> string option"
  readFile :: "string \<Rightarrow> string option"
  getpid :: int
  findProcessError :: "int \<Rightarrow> string option"
  signalError :: "int \<Rightarrow> string option"

datatype ConflictError =
    InUseByForeign int string int
  | KillFailed int string
  | ResolveFailed int ConflictError

text \<open>A call of \<^verbatim>\<open>process.Signal(syscall.SIGTERM)\<close> on a PID.\<close>

datatype action = Sigterm int

subsection \<open>The functions of the file\<close>

definition cmdlinePath :: "int \<Rightarrow> string" where
  "cmdlinePath pid = ''/proc/'' @ itoa pid @ ''/cmdline''"

text \<open>\<^verbatim>\<open>getProcessName\<close>: \<open>Inl\<close> is the error of reading the command line.\<close>

definition getProcessName :: "Env \<Rightarrow> int \<Rightarrow> unit + string" where
  "getProcessName env pid =
     (case readFile env (cmdlinePath pid) of
        None \<Rightarrow> Inl ()
      | Some data \<Rightarrow>
          (let parts = strings_Split data (CHR 0x00) in
           if length parts = 0 \<or> hd parts = [] then Inr ''unknown''
           else (let cmdline = hd parts in
                 case strings_LastIndex cmdline (CHR ''/'') of
                   Some idx \<Rightarrow> Inr (drop (idx + 1) cmdline)
                 | None \<Rightarrow> Inr cmdline)))"

text \<open>
  The functions that look for the holder of a port return Go's triple: the PID, the
  process name and the error (\<open>True\<close> when it is not \<^verbatim>\<open>nil\<close>).
\<close>

definition nameOrUnknown :: "Env \<Rightarrow> int \<Rightarrow> int \<times> string \<times> bool" where
  "nameOrUnknown env pid =
     (case getProcessName env pid of
        Inl err \<Rightarrow> (pid, ''unknown'', False)
      | Inr name \<Rightarrow> (pid, name, False))"

definition findProcessWithLsof :: "Env \<Rightarrow> int \<Rightarrow> int \<times> string \<times> bool" where
  "findProcessWithLsof env port =
     (case lsofOutput env port of
        None \<Rightarrow> (0, [], False)
      | Some output \<Rightarrow>
          (let pidStr = strings_TrimSpace output in
           if pidStr = [] then (0, [], False)
           else (let pids = strings_Split pidStr (CHR 0x0A) in
                 case strconv_Atoi (hd pids) of
                   None \<Rightarrow> (0, [], True)
                 | Some pid \<Rightarrow> nameOrUnknown env pid)))"

text \<open>The loop of \<^verbatim>\<open>findProcessWithSS\<close> over the lines of the output.\<close>

fun ssLines :: "Env \<Rightarrow> int \<Rightarrow> string list \<Rightarrow> int \<times> string \<times> bool" where
  "ssLines env port [] = (0, [], False)"
| "ssLines env port (line # rest) =
     (if strings_Contains line ('':'' @ itoa port) then
        (case strings_Index line ''pid='' of
           None \<Rightarrow> ssLines env port rest
         | Some idx \<Rightarrow>
             (let start = idx + 4;
                  end1 = strings_Index (drop start line) '','';
                  end2 = (if end1 = None then strings_Index (drop start line) '')'' else end1)
              in case end2 of
                   None \<Rightarrow> ssLines env port rest
                 | Some e \<Rightarrow>
                     (case strconv_Atoi (take e (drop start line)) of
                        None \<Rightarrow> ssLines env port rest
                      | Some pid \<Rightarrow> nameOrUnknown env pid)))
      else ssLines env port rest)"

definition findProcessWithSS :: "Env \<Rightarrow> int \<Rightarrow> int \<times> string \<times> bool" where
  "findProcessWithSS env port =
     (case ssOutput env port of
        None \<Rightarrow> (0, [], False)
      | Some output \<Rightarrow> ssLines env port (strings_Split output (CHR 0x0A)))"

definition findProcessUsingPort :: "Env \<Rightarrow> int \<Rightarrow> int \<times> string \<times> bool" where
  "findProcessUsingPort env port =
     (case findProcessWithLsof env port of
        (pid, name, err) \<Rightarrow>
          if \<not> err \<and> pid \<noteq> 0 then (pid, name, False)
          else (case findProcessWithSS env port of
                  (pid, name, err) \<Rightarrow>
                    if \<not> err \<and> pid \<noteq> 0 then (pid, name, False)
                    else (0, [], False)))"

text \<open>\<^verbatim>\<open>killProcess\<close>: the error, and the signals it sent.\<close>

definition killProcess :: "Env \<Rightarrow> int \<Rightarrow> string option \<times> action list" where
  "killProcess env pid =
     (case findProcessError env pid of
        Some err \<Rightarrow> (Some err, [])
      | None \<Rightarrow>
          (case signalError env pid of
             Some err \<Rightarrow> (Some err, [Sigterm pid])
           | None \<Rightarrow> (None, [Sigterm pid])))"

text \<open>\<^verbatim>\<open>checkAndKillPortConflict\<close>: the error (\<open>None\<close> for \<^verbatim>\<open>nil\<close>), and the signals sent.\<close>

definition checkAndKillPortConflict :: "Env \<Rightarrow> int \<Rightarrow> ConflictError option \<times> action list" where
  "checkAndKillPortConflict env port =
     (case findProcessUsingPort env port of
        (pid, processName, err) \<Rightarrow>
          if err then (None, [])
          else if pid = 0 then (None, [])
          else if \<not> strings_Contains processName ''nanoporter''
            then (Some (InUseByForeign port processName pid), [])
          else if pid = getpid env then (None, [])
          else (case killProcess env pid of
                  (Some err, sent) \<Rightarrow> (Some (KillFailed pid err), sent)
                | (None, sent) \<Rightarrow> (None, sent)))"

text \<open>
  \<^verbatim>\<open>CheckAndKillConflictingPorts\<close> ranges over the keys of a Go map, in an order the
  language leaves open: the order is the parameter \<open>ports\<close>, an enumeration of the local
  ports of the configuration. The first error ends the loop, and \<^verbatim>\<open>main\<close> exits on it.
\<close>

fun checkPorts :: "Env \<Rightarrow> int list \<Rightarrow> ConflictError option \<times> action list" where
  "checkPorts env [] = (None, [])"
| "checkPorts env (port # rest) =
     (case checkAndKillPortConflict env port of
        (Some err, sent) \<Rightarrow> (Some (ResolveFailed port err), sent)
      | (None, sent) \<Rightarrow>
          (case checkPorts env rest of (result, sent') \<Rightarrow> (result, sent @ sent')))"

definition isPortOrder :: "Config \<Rightarrow> int list \<Rightarrow> bool" where
  "isPortOrder config ports =
     (distinct ports \<and> set ports = set (map LocalPort (allForwards config)))"

definition CheckAndKillConflictingPorts ::
  "Env \<Rightarrow> Config \<Rightarrow> int list \<Rightarrow> ConflictError option \<times> action list" where
  "CheckAndKillConflictingPorts env config ports = checkPorts env ports"

text \<open>
  An environment in which \<^verbatim>\<open>lsof\<close> reports one PID for every port, and the command line
  of that PID is \<open>cmdline\<close> (\<open>None\<close>: it cannot be read).
\<close>

definition heldBy :: "int \<Rightarrow> string option \<Rightarrow> int \<Rightarrow> Env" where
  "heldBy pid cmdline self =
     \<lparr>lsofOutput = (\<lambda>port. Some (itoa pid @ [CHR 0x0A])),
      ssOutput = (\<lambda>port. None),
      readFile = (\<lambda>path. if path = cmdlinePath pid then cmdline else None),
      getpid = self,
      findProcessError = (\<lambda>p. None),
      signalError = (\<lambda>p. None)\<rparr>"

text \<open>
  Three holders of port 18080 with PID 4242: the running program itself under the binary
  name \<^verbatim>\<open>porter\<close>, the running program itself under the name \<^verbatim>\<open>nanoporter\<close>, and a process
  whose command line cannot be read while the running program has PID 1.
\<close>

definition selfAsPorter :: Env where
  "selfAsPorter =
     heldBy 4242 (Some (''/usr/local/bin/porter'' @ [CHR 0x00] @ ''-config'' @ [CHR 0x00])) 4242"

definition selfAsNanoporter :: Env where
  "selfAsNanoporter =
     heldBy 4242 (Some (''/usr/local/bin/nanoporter'' @ [CHR 0x00])) 4242"

definition unreadableHolder :: Env where
  "unreadableHolder = heldBy 4242 None 1"

section \<open>The port-forward manager: \<^verbatim>\<open>runPortForward\<close> and what it calls\<close>

subsection \<open>Backoff\<close>

text \<open>
  Go's \<^verbatim>\<open>x << n\<close> on a 64-bit integer with an unsigned count: no upper limit on the count,
  and a count of 64 or more gives 0.
\<close>

definition shiftLeft :: "64 word \<Rightarrow> 64 word \<Rightarrow> 64 word" where
  "shiftLeft x n = (if 64 \<le> unat n then 0 else push_bit (unat n) x)"

text \<open>
  \<^verbatim>\<open>calculateBackoff\<close>. In \<^verbatim>\<open>time.Duration(1<<uint(retryCount)) * time.Second\<close> the constant 1
  takes the type \<^verbatim>\<open>time.Duration\<close>, so the shift and the product are 64-bit and wrap; the
  comparison with 60 seconds is signed.
\<close>

definition calculateBackoff :: "Config \<Rightarrow> 64 word \<Rightarrow> duration" where
  "calculateBackoff config retryCount =
     (if retryCount = 0 then ReconnectDelay config
      else (let delay = shiftLeft 1 retryCount * second
            in if 60 * second <s delay then 60 * second else delay))"

subsection \<open>The record of a tunnel\<close>

datatype ForwardState =
  StateStarting | StateActive | StateReconnecting | StateFailed | StateStopped

text \<open>
  The fields of \<^verbatim>\<open>PortForward\<close> that the supervisor and the health check write. An
  instant is a count of nanoseconds. A context is a number; \<open>ctx\<close> is the one held in
  \<^verbatim>\<open>pf.ctx\<close>, and \<^verbatim>\<open>pf.cancel\<close> is the cancel function of that same context (the two
  fields are always assigned together).
\<close>

type_synonym instant = int

record PortForward =
  State :: ForwardState
  Error :: string
  LastCheck :: instant
  ReconnectAt :: instant
  RetryCount :: "64 word"
  ctx :: nat

text \<open>
  Where the goroutine of \<^verbatim>\<open>runPortForward\<close> stands: at the top of its loop, inside
  \<^verbatim>\<open>establishPortForward\<close> before the tunnel is ready, in the second \<^verbatim>\<open>select\<close> of
  \<^verbatim>\<open>establishPortForward\<close> (with the context whose \<^verbatim>\<open>Done\<close> channel it waits on), in the
  \<^verbatim>\<open>select\<close> of the backoff (with that context and the delay of the timer), or returned.
\<close>

datatype place =
    AtLoopTop
  | InEstablish
  | WaitEngine nat
  | InBackoff nat duration
  | Returned

text \<open>
  What a reader of the record can see: every write of the record, and every call of
  \<^verbatim>\<open>notifyUpdate\<close>, each with the content of the record at that moment.
\<close>

datatype observation = Wrote PortForward | Notified PortForward

record system =
  pf :: PortForward
  cancelled :: "nat list"
  fresh :: nat
  pendingInstall :: nat
  sup :: place
  history :: "observation list"

text \<open>\<^verbatim>\<open>Initialize\<close>: the record of one forward, and its goroutine about to start.\<close>

definition Initialize :: system where
  "Initialize =
     \<lparr>pf = \<lparr>State = StateStarting, Error = [], LastCheck = 0, ReconnectAt = 0,
             RetryCount = 0, ctx = 0\<rparr>,
      cancelled = [], fresh = 1, pendingInstall = 0, sup = AtLoopTop, history = []\<rparr>"

definition mutate :: "(PortForward \<Rightarrow> PortForward) \<Rightarrow> system \<Rightarrow> system" where
  "mutate f s = s\<lparr>pf := f (pf s), history := history s @ [Wrote (f (pf s))]\<rparr>"

definition setState :: "ForwardState \<Rightarrow> system \<Rightarrow> system" where
  "setState state = mutate (\<lambda>r. r\<lparr>State := state\<rparr>)"

definition setError :: "string \<Rightarrow> system \<Rightarrow> system" where
  "setError err = mutate (\<lambda>r. r\<lparr>Error := err\<rparr>)"

definition notifyUpdate :: "system \<Rightarrow> system" where
  "notifyUpdate s = s\<lparr>history := history s @ [Notified (pf s)]\<rparr>"

definition isDone :: "system \<Rightarrow> nat \<Rightarrow> bool" where
  "isDone s c = (c \<in> set (cancelled s))"

text \<open>\<^verbatim>\<open>pf.cancel()\<close>.\<close>

definition cancel :: "system \<Rightarrow> system" where
  "cancel s = s\<lparr>cancelled := ctx (pf s) # cancelled s\<rparr>"

subsection \<open>The supervisor\<close>

text \<open>
  How one call of \<^verbatim>\<open>establishPortForward\<close> goes before its first \<^verbatim>\<open>select\<close> is over: one
  of the four steps before the wait fails, or the error channel delivers first (an error
  or \<^verbatim>\<open>nil\<close>), or 30 seconds pass, or the tunnel is ready.
\<close>

datatype attempt =
    FindPodFailed string
  | ParseURLFailed string
  | RoundTripperFailed string
  | NewForwarderFailed string
  | ForwardPortsReturned "string option"
  | ReadyTimeout
  | BecameReady

text \<open>The error an attempt that is not ready returns (\<open>None\<close> for \<^verbatim>\<open>nil\<close>).\<close>

fun attemptError :: "attempt \<Rightarrow> string option" where
  "attemptError (FindPodFailed e) = Some (''failed to find pod: '' @ e)"
| "attemptError (ParseURLFailed e) = Some (''failed to parse API server URL: '' @ e)"
| "attemptError (RoundTripperFailed e) = Some (''failed to create SPDY round tripper: '' @ e)"
| "attemptError (NewForwarderFailed e) = Some (''failed to create port forwarder: '' @ e)"
| "attemptError (ForwardPortsReturned err) = err"
| "attemptError ReadyTimeout = Some ''timeout waiting for port-forward to be ready''"
| "attemptError BecameReady = None"

text \<open>
  The error \<^verbatim>\<open>establishPortForward\<close> returns when the error channel delivers while the
  tunnel is active: the error of the engine wrapped, or a text of its own for \<^verbatim>\<open>nil\<close>.
\<close>

fun engineError :: "string option \<Rightarrow> string" where
  "engineError (Some msg) = ''port-forward error: '' @ msg"
| "engineError None = ''port-forward closed unexpectedly''"

text \<open>
  The branch \<^verbatim>\<open>case <-readyChan\<close>: three writes, the notification, and then the second
  \<^verbatim>\<open>select\<close>, which reads \<^verbatim>\<open>pf.ctx\<close> as it is then.
\<close>

definition onReady :: "system \<Rightarrow> system" where
  "onReady s =
     (let s = setState StateActive s;
          s = setError [] s;
          s = mutate (\<lambda>r. r\<lparr>RetryCount := 0\<rparr>) s;
          s = notifyUpdate s
      in s\<lparr>sup := WaitEngine (ctx (pf s))\<rparr>)"

text \<open>
  What \<^verbatim>\<open>runPortForward\<close> does with the result of \<^verbatim>\<open>establishPortForward\<close>: on \<^verbatim>\<open>nil\<close> the
  loop goes round; on an error the record is written and notified, then the delay is
  computed, \<^verbatim>\<open>ReconnectAt\<close> and \<^verbatim>\<open>RetryCount\<close> are written under one lock, and the
  goroutine waits for the timer or for \<^verbatim>\<open>pf.ctx\<close> as it is then. \<open>now\<close> is \<^verbatim>\<open>time.Now()\<close>.
\<close>

definition afterEstablish :: "Config \<Rightarrow> string option \<Rightarrow> instant \<Rightarrow> system \<Rightarrow> system" where
  "afterEstablish config err now s =
     (case err of
        None \<Rightarrow> s\<lparr>sup := AtLoopTop\<rparr>
      | Some msg \<Rightarrow>
          (let s = setError msg s;
               s = setState StateReconnecting s;
               s = notifyUpdate s;
               delay = calculateBackoff config (RetryCount (pf s));
               s = mutate (\<lambda>r. r\<lparr>ReconnectAt := now + sint delay,
                                  RetryCount := RetryCount r + 1\<rparr>) s
           in s\<lparr>sup := InBackoff (ctx (pf s)) delay\<rparr>))"

text \<open>
  The events of one tunnel. Those of the supervisor: the \<^verbatim>\<open>select\<close> at the top of the
  loop; the outcome of an attempt; the end of the engine while the tunnel is active (the
  value of the error channel); the \<^verbatim>\<open>Done\<close> channel of the context waited on; the timer of
  the backoff. Those of the others: \<^verbatim>\<open>Stop\<close> of the manager; a health check up to its
  \<^verbatim>\<open>pf.cancel()\<close> (with the result of the dial, \<open>True\<close> for a connection); and the rest of
  a health check whose dial failed, which installs a new context.
\<close>

datatype event =
    LoopTop
  | Attempt attempt instant
  | EngineEnded "string option" instant
  | ContextDone
  | TimerFired
  | Stop
  | CheckHealth bool instant
  | InstallContext

text \<open>
  One step; \<open>None\<close> when the event cannot happen in the state. A \<^verbatim>\<open>select\<close> takes the
  \<^verbatim>\<open>Done\<close> case only when the context is cancelled; the \<^verbatim>\<open>select\<close> at the top of the loop
  has a \<^verbatim>\<open>default\<close> and never waits.
\<close>

fun step :: "Config \<Rightarrow> event \<Rightarrow> system \<Rightarrow> system option" where
  "step config LoopTop s =
     (if sup s \<noteq> AtLoopTop then None
      else if isDone s (ctx (pf s))
        then Some ((notifyUpdate (setState StateStopped s))\<lparr>sup := Returned\<rparr>)
      else Some (s\<lparr>sup := InEstablish\<rparr>))"
| "step config (Attempt a now) s =
     (if sup s \<noteq> InEstablish then None
      else if a = BecameReady then Some (onReady s)
      else Some (afterEstablish config (attemptError a) now s))"
| "step config (EngineEnded err now) s =
     (case sup s of
        WaitEngine c \<Rightarrow> Some (afterEstablish config (Some (engineError err)) now s)
      | _ \<Rightarrow> None)"
| "step config ContextDone s =
     (case sup s of
        WaitEngine c \<Rightarrow> if isDone s c then Some (afterEstablish config None 0 s) else None
      | InBackoff c delay \<Rightarrow> if isDone s c then Some (s\<lparr>sup := Returned\<rparr>) else None
      | _ \<Rightarrow> None)"
| "step config TimerFired s =
     (case sup s of
        InBackoff c delay \<Rightarrow> Some (s\<lparr>sup := AtLoopTop\<rparr>)
      | _ \<Rightarrow> None)"
| "step config Stop s = Some (cancel s)"
| "step config (CheckHealth connected now) s =
     (let currentState = State (pf s);
          s = mutate (\<lambda>r. r\<lparr>LastCheck := now\<rparr>) s
      in if currentState \<noteq> StateActive then Some s
         else if connected then Some s
         else Some ((cancel s)\<lparr>pendingInstall := Suc (pendingInstall s)\<rparr>))"
| "step config InstallContext s =
     (if pendingInstall s = 0 then None
      else Some ((mutate (\<lambda>r. r\<lparr>ctx := fresh s\<rparr>) s)
                   \<lparr>fresh := Suc (fresh s), pendingInstall := pendingInstall s - 1\<rparr>))"

fun run :: "Config \<Rightarrow> event list \<Rightarrow> system \<Rightarrow> system option" where
  "run config [] s = Some s"
| "run config (e # es) s =
     (case step config e s of
        None \<Rightarrow> None
      | Some s' \<Rightarrow> run config es s')"

text \<open>The delays of the backoffs a run went through, in order.\<close>

fun waits :: "Config \<Rightarrow> event list \<Rightarrow> system \<Rightarrow> duration list" where
  "waits config [] s = []"
| "waits config (e # es) s =
     (case step config e s of
        None \<Rightarrow> []
      | Some s' \<Rightarrow>
          (case (sup s, sup s') of
             (InEstablish, InBackoff c delay) \<Rightarrow> delay # waits config es s'
           | (WaitEngine c', InBackoff c delay) \<Rightarrow> delay # waits config es s'
           | _ \<Rightarrow> waits config es s'))"

text \<open>The configuration after \<^verbatim>\<open>LoadConfig\<close> filled in the defaults.\<close>

definition defaults :: Config where
  "defaults = \<lparr>CheckInterval = 10 * second, ReconnectDelay = 5 * second, Clusters = []\<rparr>"

text \<open>
  A target pod that is absent: every round of the loop fails in \<^verbatim>\<open>findPod\<close> and the timer
  of the backoff runs out. \<open>failures k\<close> is \<open>k\<close> such rounds in a row.
\<close>

definition podMissing :: "event list" where
  "podMissing = [LoopTop, Attempt (FindPodFailed ''pod not found'') 0, TimerFired]"

definition failures :: "nat \<Rightarrow> event list" where
  "failures k = concat (replicate k podMissing)"

text \<open>The record as an observation shows it, and the states a list of observations shows.\<close>

fun observed :: "observation \<Rightarrow> PortForward" where
  "observed (Wrote r) = r"
| "observed (Notified r) = r"


text \<open>
  What holds of every state a run reaches from \<^verbatim>\<open>Initialize\<close>: contexts are numbered below
  \<open>fresh\<close>, an active record carries no error and a retry count of 0, and while the
  supervisor waits for the end of the engine the record is active.
\<close>

definition reachable :: "Config \<Rightarrow> system \<Rightarrow> bool" where
  "reachable config s = (\<exists>es. run config es Initialize = Some s)"

definition invariant :: "system \<Rightarrow> bool" where
  "invariant s =
     (ctx (pf s) < fresh s \<and> list_all (\<lambda>c. c < fresh s) (cancelled s)
      \<and> (State (pf s) = StateActive \<longrightarrow> Error (pf s) = [] \<and> RetryCount (pf s) = 0)
      \<and> (case sup s of
            WaitEngine c \<Rightarrow>
              State (pf s) = StateActive \<and> Error (pf s) = [] \<and> RetryCount (pf s) = 0
          | _ \<Rightarrow> True))"

text \<open>
  The error text and the instant of \<^verbatim>\<open>time.Now()\<close> of an event that makes
  \<^verbatim>\<open>establishPortForward\<close> return an error to \<^verbatim>\<open>runPortForward\<close>: an attempt that fails, or
  the end of the engine of an active tunnel.
\<close>

fun failure :: "event \<Rightarrow> (string \<times> instant) option" where
  "failure (Attempt a now) = map_option (\<lambda>msg. (msg, now)) (attemptError a)"
| "failure (EngineEnded err now) = Some (engineError err, now)"
| "failure LoopTop = None"
| "failure ContextDone = None"
| "failure TimerFired = None"
| "failure Stop = None"
| "failure (CheckHealth connected now) = None"
| "failure InstallContext = None"

text \<open>An observation in which a record notified as active carries no error.\<close>

definition activeWithoutError :: "observation \<Rightarrow> bool" where
  "activeWithoutError ob =
     (case ob of
        Notified r \<Rightarrow> State r = StateActive \<longrightarrow> Error r = []
      | Wrote r \<Rightarrow> True)"

text \<open>
  What a run from \<^verbatim>\<open>Initialize\<close> under the default configuration leaves behind: the
  observations, the record and the place of the supervisor (of a run that cannot happen:
  nothing, and the initial ones).
\<close>

definition historyOf :: "event list \<Rightarrow> observation list" where
  "historyOf es = (case run defaults es Initialize of None \<Rightarrow> [] | Some s \<Rightarrow> history s)"

definition recordOf :: "event list \<Rightarrow> PortForward" where
  "recordOf es =
     (case run defaults es Initialize of None \<Rightarrow> pf Initialize | Some s \<Rightarrow> pf s)"

definition placeOf :: "event list \<Rightarrow> place" where
  "placeOf es =
     (case run defaults es Initialize of None \<Rightarrow> sup Initialize | Some s \<Rightarrow> sup s)"

definition happens :: "event list \<Rightarrow> bool" where
  "happens es = (run defaults es Initialize \<noteq> None)"

text \<open>
  The tunnel just come up for the first time: the state after the events \<open>LoopTop\<close> and
  \<open>Attempt BecameReady 0\<close> from \<^verbatim>\<open>Initialize\<close>.
\<close>

definition activeRecord :: PortForward where
  "activeRecord =
     \<lparr>State = StateActive, Error = [], LastCheck = 0, ReconnectAt = 0, RetryCount = 0,
      ctx = 0\<rparr>"

definition activeSystem :: system where
  "activeSystem =
     \<lparr>pf = activeRecord, cancelled = [], fresh = 1, pendingInstall = 0, sup = WaitEngine 0,
      history = [Wrote activeRecord, Wrote activeRecord, Wrote activeRecord,
                 Notified activeRecord]\<rparr>"


text \<open>
  The state after the first four of these events from \<open>activeSystem\<close>: the context 0 is
  cancelled, the context 1 is installed, and the supervisor is inside
  \<^verbatim>\<open>establishPortForward\<close> again while the record still says \<^verbatim>\<open>active\<close>.
\<close>

definition kickedSystem :: system where
  "kickedSystem =
     \<lparr>pf = activeRecord\<lparr>LastCheck := 10, ctx := 1\<rparr>,
      cancelled = [0], fresh = 2, pendingInstall = 0, sup = InEstablish,
      history = history activeSystem @
        [Wrote (activeRecord\<lparr>LastCheck := 10\<rparr>),
         Wrote (activeRecord\<lparr>LastCheck := 10, ctx := 1\<rparr>)]\<rparr>"

subsection \<open>The pod resolver\<close>

text \<open>
  The cluster as \<^verbatim>\<open>findPod\<close> asks it, through the Kubernetes client: a pod and a service by
  namespace and name, the pods of a namespace under a label selector given as a string,
  and the library function that renders the selector of a service as that string. An
  answer is an error text (\<open>Inl\<close>) or a value. None of the four is code of the repository.
\<close>

record Pod =
  podName :: string
  podPhase :: string

record Cluster =
  getPod :: "string \<Rightarrow> string \<Rightarrow> string + Pod"
  getServiceSelector :: "string \<Rightarrow> string \<Rightarrow> string + (string \<times> string) list"
  formatLabelSelector :: "(string \<times> string) list \<Rightarrow> string"
  listPods :: "string \<Rightarrow> string \<Rightarrow> string + Pod list"

definition findPod :: "Cluster \<Rightarrow> ForwardConfig \<Rightarrow> string + string" where
  "findPod cluster forward =
     (if Type forward = ''pod'' then
        (case getPod cluster (Namespace forward) (Service forward) of
           Inl err \<Rightarrow> Inl err
         | Inr pod \<Rightarrow>
             if podPhase pod \<noteq> ''Running''
             then Inl (''pod is not running: '' @ podPhase pod)
             else Inr (podName pod))
      else
        (case getServiceSelector cluster (Namespace forward) (Service forward) of
           Inl err \<Rightarrow> Inl err
         | Inr selector \<Rightarrow>
             (case listPods cluster (Namespace forward) (formatLabelSelector cluster selector) of
                Inl err \<Rightarrow> Inl err
              | Inr pods \<Rightarrow>
                  (case find (\<lambda>pod. podPhase pod = ''Running'') pods of
                     Some pod \<Rightarrow> Inr (podName pod)
                   | None \<Rightarrow> Inl (''no running pods found for service '' @ Service forward)))))"

section \<open>Configuration: what an accepted file satisfies\<close>

lemma validateForwards_ok:
  "validateForwards cname fk lp fs = Inr lp' \<Longrightarrow>
     (\<forall>f \<in> set fs. portInRange (LocalPort f) \<and> portInRange (RemotePort f)
        \<and> lp (LocalPort f) = None)
     \<and> distinct (map LocalPort fs)
     \<and> dom lp' = dom lp \<union> LocalPort ` set fs"
proof (induction fs arbitrary: fk lp)
  case Nil
  then show ?case by simp
next
  case (Cons f fs)
  from Cons.prems have none: "lp (LocalPort f) = None"
    by (auto split: if_splits option.splits)
  from Cons.prems have range: "portInRange (LocalPort f)" "portInRange (RemotePort f)"
    by (auto simp: portInRange_def split: if_splits option.splits)
  from Cons.prems none have rest:
    "validateForwards cname (fk(forwardKey cname f \<mapsto> True))
       (lp(LocalPort f \<mapsto> forwardKey cname f)) fs = Inr lp'"
    by (auto split: if_splits)
  note ih = Cons.IH [OF rest]
  have dom': "dom lp' = insert (LocalPort f) (dom lp) \<union> LocalPort ` set fs"
    using ih [THEN conjunct2, THEN conjunct2] by (simp only: dom_fun_upd option.simps if_False)
  have upd: "\<And>g. (lp(LocalPort f \<mapsto> forwardKey cname f)) (LocalPort g) = None
      \<Longrightarrow> LocalPort g \<noteq> LocalPort f \<and> lp (LocalPort g) = None"
    by (simp split: if_splits)
  from ih upd have others:
    "\<forall>g \<in> set fs. portInRange (LocalPort g) \<and> portInRange (RemotePort g)
       \<and> lp (LocalPort g) = None \<and> LocalPort g \<noteq> LocalPort f"
    by blast
  from ih have dist: "distinct (map LocalPort fs)" by blast
  from others have notin: "LocalPort f \<notin> LocalPort ` set fs" by force
  show ?case
    using none range others dist notin dom' by auto
qed

lemma validateForwards_iff:
  "(\<exists>lp'. validateForwards cname fk lp fs = Inr lp') \<longleftrightarrow>
     (\<forall>f \<in> set fs. validForward f \<and> fk (forwardKey cname f) \<noteq> Some True
        \<and> lp (LocalPort f) = None)
     \<and> distinct (map (forwardKey cname) fs) \<and> distinct (map LocalPort fs)"
proof (induction fs arbitrary: fk lp)
  case Nil
  then show ?case by simp
next
  case (Cons f fs)
  let ?k = "forwardKey cname f"
  have step: "(\<exists>lp'. validateForwards cname fk lp (f # fs) = Inr lp') \<longleftrightarrow>
     validForward f \<and> fk ?k \<noteq> Some True \<and> lp (LocalPort f) = None
     \<and> (\<exists>lp'. validateForwards cname (fk(?k \<mapsto> True)) (lp(LocalPort f \<mapsto> ?k)) fs = Inr lp')"
    by (auto simp: validForward_def portInRange_def split: option.splits)
  have k: "\<And>g. ((fk(?k \<mapsto> True)) (forwardKey cname g) \<noteq> Some True)
      = (forwardKey cname g \<noteq> ?k \<and> fk (forwardKey cname g) \<noteq> Some True)"
    by simp
  have p: "\<And>g. ((lp(LocalPort f \<mapsto> ?k)) (LocalPort g) = None)
      = (LocalPort g \<noteq> LocalPort f \<and> lp (LocalPort g) = None)"
    by simp
  show ?case
    unfolding step Cons.IH k p by (auto simp: image_iff)
qed


lemma validateForwards_result:
  assumes "validateForwards cname fk lp fs = Inr lp'"
  shows "lp' x = None \<longleftrightarrow> lp x = None \<and> (\<forall>h \<in> set fs. LocalPort h \<noteq> x)"
proof -
  from validateForwards_ok [OF assms] have "dom lp' = dom lp \<union> LocalPort ` set fs"
    by blast
  then have "x \<in> dom lp' \<longleftrightarrow> x \<in> dom lp \<or> x \<in> LocalPort ` set fs" by blast
  then show ?thesis by (simp only: domIff) blast
qed

lemma validateClusters_iff:
  "validateClusters ne i cn lp cs = None \<longleftrightarrow>
     (\<forall>c \<in> set cs. validCluster ne c \<and> cn (Name c) \<noteq> Some True)
     \<and> distinct (map Name cs)
     \<and> distinct (map LocalPort (concat (map Forwards cs)))
     \<and> (\<forall>f \<in> set (concat (map Forwards cs)). lp (LocalPort f) = None)"
proof (induction cs arbitrary: i cn lp)
  case Nil
  then show ?case by simp
next
  case (Cons c cs)
  define R where "R = concat (map Forwards cs)"
  have cat: "concat (map Forwards (c # cs)) = Forwards c @ R"
    by (simp add: R_def)
  let ?fw = "validateForwards (Name c) Map.empty lp (Forwards c)"
  have n: "\<And>d. ((cn(Name c \<mapsto> True)) (Name d) \<noteq> Some True)
      = (Name d \<noteq> Name c \<and> cn (Name d) \<noteq> Some True)"
    by simp
  show ?case
  proof (cases ?fw)
    case (Inl e)
    then have "\<not> (\<exists>lp'. ?fw = Inr lp')" by simp
    then have bad: "\<not> ((\<forall>f \<in> set (Forwards c). validForward f \<and> lp (LocalPort f) = None)
       \<and> distinct (map (forwardKey (Name c)) (Forwards c))
       \<and> distinct (map LocalPort (Forwards c)))"
      unfolding validateForwards_iff by simp
    have l: "validateClusters ne i cn lp (c # cs) \<noteq> None"
      using Inl by (simp split: if_splits)
    from bad have r: "\<not> (validCluster ne c \<and> distinct (map LocalPort (Forwards c @ R))
        \<and> (\<forall>f \<in> set (Forwards c @ R). lp (LocalPort f) = None))"
      by (auto simp: validCluster_def)
    show ?thesis
      unfolding cat using l r by auto
  next
    case (Inr lp')
    then have "\<exists>lp'. ?fw = Inr lp'" by simp
    then have good: "(\<forall>f \<in> set (Forwards c). validForward f \<and> lp (LocalPort f) = None)
       \<and> distinct (map (forwardKey (Name c)) (Forwards c))
       \<and> distinct (map LocalPort (Forwards c))"
      unfolding validateForwards_iff by simp
    note res = validateForwards_result [OF Inr]
    have l: "validateClusters ne i cn lp (c # cs) = None \<longleftrightarrow>
       Name c \<noteq> [] \<and> cn (Name c) \<noteq> Some True \<and> Kubeconfig c \<noteq> [] \<and> \<not> ne (Kubeconfig c)
       \<and> Forwards c \<noteq> []
       \<and> validateClusters ne (Suc i) (cn(Name c \<mapsto> True)) lp' cs = None"
      using Inr by simp
    have ih: "validateClusters ne (Suc i) (cn(Name c \<mapsto> True)) lp' cs = None \<longleftrightarrow>
       (\<forall>d \<in> set cs. validCluster ne d \<and> Name d \<noteq> Name c \<and> cn (Name d) \<noteq> Some True)
       \<and> distinct (map Name cs) \<and> distinct (map LocalPort R)
       \<and> (\<forall>f \<in> set R. lp (LocalPort f) = None \<and> (\<forall>h \<in> set (Forwards c). LocalPort h \<noteq> LocalPort f))"
      unfolding Cons.IH n res R_def by blast
    show ?thesis
      unfolding cat l ih using good by (auto simp: validCluster_def image_iff)
  qed
qed

lemma validateConfig_iff:
  "validateConfig ne cfg = None \<longleftrightarrow>
     Clusters cfg \<noteq> [] \<and> (\<forall>c \<in> set (Clusters cfg). validCluster ne c)
     \<and> distinct (map Name (Clusters cfg)) \<and> distinct (map LocalPort (allForwards cfg))"
proof (cases "Clusters cfg = []")
  case True
  then show ?thesis by (simp add: validateConfig_def)
next
  case False
  then have "validateConfig ne cfg = validateClusters ne 0 Map.empty Map.empty (Clusters cfg)"
    by (simp add: validateConfig_def)
  then show ?thesis
    unfolding allForwards_def using False by (simp only: validateClusters_iff) simp
qed

lemma accepted_iff: "accepted ne cfg \<longleftrightarrow> validateConfig ne cfg = None"
proof -
  have "validateConfig ne (cfg\<lparr>CheckInterval := a, ReconnectDelay := b\<rparr>) = validateConfig ne cfg" for a b
    by (simp add: validateConfig_def)
  then show ?thesis
    by (auto simp: accepted_def LoadConfig_def Let_def split: option.splits)
qed

text \<open>
  Claim C9. Loading accepts a file only if every \<^verbatim>\<open>local_port\<close> and every \<^verbatim>\<open>remote_port\<close>
  lies in 1..65535 and no two forwards of the file, in whatever clusters, have the same
  \<^verbatim>\<open>local_port\<close>. For a file that is otherwise in order (one cluster, one forward), loading
  succeeds exactly when both ports are in range: 1 and 65535 are accepted, 0 and 65536
  are rejected with the error for the port they belong to, the remote port as the local one.
\<close>

theorem load_ports:
  "(accepted ne cfg \<longrightarrow>
      (\<forall>f \<in> set (allForwards cfg). portInRange (LocalPort f) \<and> portInRange (RemotePort f))
      \<and> distinct (map LocalPort (allForwards cfg)))
   \<and> (accepted ne (oneForward lp rp) \<longleftrightarrow> \<not> ne ''/k'' \<and> portInRange lp \<and> portInRange rp)
   \<and> portInRange 1 \<and> portInRange 65535 \<and> \<not> portInRange 0 \<and> \<not> portInRange 65536
   \<and> (\<not> ne ''/k'' \<and> \<not> portInRange lp \<longrightarrow>
        LoadConfig ne (oneForward lp rp) = Inl (InvalidLocalPort ''default'' ''api'' ''c1'' lp))
   \<and> (\<not> ne ''/k'' \<and> portInRange lp \<and> \<not> portInRange rp \<longrightarrow>
        LoadConfig ne (oneForward lp rp) = Inl (InvalidRemotePort ''default'' ''api'' ''c1'' rp))"
proof -
  have a: "accepted ne cfg \<longrightarrow>
      (\<forall>f \<in> set (allForwards cfg). portInRange (LocalPort f) \<and> portInRange (RemotePort f))
      \<and> distinct (map LocalPort (allForwards cfg))"
    unfolding accepted_iff validateConfig_iff
    by (auto simp: validCluster_def validForward_def allForwards_def)
  have b: "accepted ne (oneForward lp rp) \<longleftrightarrow> \<not> ne ''/k'' \<and> portInRange lp \<and> portInRange rp"
    unfolding accepted_iff validateConfig_iff
    by (auto simp: validCluster_def validForward_def allForwards_def oneForward_def)
  have c: "portInRange 1 \<and> portInRange 65535 \<and> \<not> portInRange 0 \<and> \<not> portInRange 65536"
    by (simp add: portInRange_def)
  have d: "\<not> ne ''/k'' \<and> \<not> portInRange lp \<longrightarrow>
        LoadConfig ne (oneForward lp rp) = Inl (InvalidLocalPort ''default'' ''api'' ''c1'' lp)"
    by (auto simp: LoadConfig_def validateConfig_def oneForward_def portInRange_def)
  have e: "\<not> ne ''/k'' \<and> portInRange lp \<and> \<not> portInRange rp \<longrightarrow>
        LoadConfig ne (oneForward lp rp) = Inl (InvalidRemotePort ''default'' ''api'' ''c1'' rp)"
    by (auto simp: LoadConfig_def validateConfig_def oneForward_def portInRange_def)
  from a b c d e show ?thesis by blast
qed

theorem load_ports_witness:
  "accepted (\<lambda>p. False) cfg2
   \<and> list_all (\<lambda>f. portInRange (LocalPort f) \<and> portInRange (RemotePort f)) (allForwards cfg2)
   \<and> distinct (map LocalPort (allForwards cfg2))
   \<and> accepted (\<lambda>p. False) (oneForward 1 65535) \<and> accepted (\<lambda>p. False) (oneForward 65535 1)
   \<and> LoadConfig (\<lambda>p. False) (oneForward 0 80) = Inl (InvalidLocalPort ''default'' ''api'' ''c1'' 0)
   \<and> LoadConfig (\<lambda>p. False) (oneForward 65536 80)
        = Inl (InvalidLocalPort ''default'' ''api'' ''c1'' 65536)
   \<and> LoadConfig (\<lambda>p. False) (oneForward 80 0) = Inl (InvalidRemotePort ''default'' ''api'' ''c1'' 0)
   \<and> LoadConfig (\<lambda>p. False) (oneForward 80 65536)
        = Inl (InvalidRemotePort ''default'' ''api'' ''c1'' 65536)"
proof -
  have acc: "accepted (\<lambda>p. False) cfg2"
    by (simp add: accepted_def LoadConfig_def validateConfig_def cfg2_def forwardKey_def)
  show ?thesis
    using acc
      load_ports [of "\<lambda>p. False" cfg2 1 65535]
      load_ports [of "\<lambda>p. False" cfg2 65535 1]
      load_ports [of "\<lambda>p. False" cfg2 0 80]
      load_ports [of "\<lambda>p. False" cfg2 65536 80]
      load_ports [of "\<lambda>p. False" cfg2 80 0]
      load_ports [of "\<lambda>p. False" cfg2 80 65536]
    by (simp add: portInRange_def list_all_iff)
qed

section \<open>Port conflicts: who is signalled and when startup fails\<close>

lemma nameOrUnknown_fst: "nameOrUnknown env p = (pid, name, err) \<Longrightarrow> p = pid \<and> \<not> err"
  by (auto simp: nameOrUnknown_def split: sum.splits)

lemma findProcessWithLsof_name:
  "findProcessWithLsof env port = (pid, name, err) \<Longrightarrow> pid \<noteq> 0
     \<Longrightarrow> nameOrUnknown env pid = (pid, name, err)"
  by (auto simp: findProcessWithLsof_def Let_def split: option.splits if_splits
      dest: nameOrUnknown_fst)

lemma ssLines_name:
  "ssLines env port ls = (pid, name, err) \<Longrightarrow> pid \<noteq> 0
     \<Longrightarrow> nameOrUnknown env pid = (pid, name, err)"
proof (induction ls)
  case Nil
  then show ?case by simp
next
  case (Cons l ls)
  then show ?case
    by (auto simp: Let_def split: option.splits if_splits dest: nameOrUnknown_fst)
qed

lemma findProcessWithSS_name:
  "findProcessWithSS env port = (pid, name, err) \<Longrightarrow> pid \<noteq> 0
     \<Longrightarrow> nameOrUnknown env pid = (pid, name, err)"
  by (auto simp: findProcessWithSS_def split: option.splits dest: ssLines_name)

lemma findProcessUsingPort_name:
  assumes "findProcessUsingPort env port = (pid, name, err)" "pid \<noteq> 0"
  shows "nameOrUnknown env pid = (pid, name, err) \<and> \<not> err"
proof -
  obtain p1 n1 e1 where l: "findProcessWithLsof env port = (p1, n1, e1)"
    by (cases "findProcessWithLsof env port") auto
  obtain p2 n2 e2 where s: "findProcessWithSS env port = (p2, n2, e2)"
    by (cases "findProcessWithSS env port") auto
  show ?thesis
  proof (cases "\<not> e1 \<and> p1 \<noteq> 0")
    case True
    with assms l have "pid = p1" "name = n1" "err = False" "e1 = False"
      by (auto simp: findProcessUsingPort_def)
    with findProcessWithLsof_name [OF l] True show ?thesis by simp
  next
    case False
    with assms l s have "\<not> e2 \<and> p2 \<noteq> 0"
      by (auto simp: findProcessUsingPort_def split: if_splits)
    with False assms l s have "pid = p2" "name = n2" "err = False" "e2 = False"
      by (auto simp: findProcessUsingPort_def split: if_splits)
    with findProcessWithSS_name [OF s] \<open>\<not> e2 \<and> p2 \<noteq> 0\<close> show ?thesis by simp
  qed
qed

lemma checkPorts_fails:
  "port \<in> set ports \<Longrightarrow> fst (checkAndKillPortConflict env port) \<noteq> None
     \<Longrightarrow> fst (checkPorts env ports) \<noteq> None"
proof (induction ports)
  case Nil
  then show ?case by simp
next
  case (Cons p ps)
  then show ?case
    by (cases "checkAndKillPortConflict env p"; cases "checkPorts env ps")
       (auto split: option.splits)
qed

text \<open>
  Claim C10. When a port is held by a process whose PID is found (by \<^verbatim>\<open>lsof\<close> or by
  \<^verbatim>\<open>ss\<close>) and whose command line cannot be read, the holder is reported under the name
  \<^verbatim>\<open>unknown\<close>, the check of the port returns the error for a process that is not
  nanoporter and sends no signal, and when the port is one of the configuration the check
  of all ports returns an error, in whatever order the ports are visited. Nothing is asked of what the holder really is, so it holds
  for a prior instance of the program as well.
\<close>

theorem unreadable_holder_is_foreign:
  assumes "fst (findProcessUsingPort env port) = pid" and "pid \<noteq> 0"
    and "readFile env (cmdlinePath pid) = None"
  shows "findProcessUsingPort env port = (pid, ''unknown'', False)
    \<and> checkAndKillPortConflict env port = (Some (InUseByForeign port ''unknown'' pid), [])
    \<and> (isPortOrder config ports \<and> port \<in> set (map LocalPort (allForwards config))
         \<longrightarrow> fst (CheckAndKillConflictingPorts env config ports) \<noteq> None)"
proof -
  obtain name err where f: "findProcessUsingPort env port = (pid, name, err)"
    using assms(1) by (cases "findProcessUsingPort env port") auto
  from assms(3) have "nameOrUnknown env pid = (pid, ''unknown'', False)"
    by (simp add: nameOrUnknown_def getProcessName_def)
  with findProcessUsingPort_name [OF f assms(2)] have found:
    "findProcessUsingPort env port = (pid, ''unknown'', False)"
    using f by simp
  have nc: "\<not> strings_Contains ''unknown'' ''nanoporter''"
    by (simp add: strings_Contains_def)
  from found nc assms(2) have chk:
    "checkAndKillPortConflict env port = (Some (InUseByForeign port ''unknown'' pid), [])"
    by (simp add: checkAndKillPortConflict_def)
  then have "fst (checkAndKillPortConflict env port) \<noteq> None" by simp
  then have "isPortOrder config ports \<and> port \<in> set (map LocalPort (allForwards config))
      \<longrightarrow> fst (CheckAndKillConflictingPorts env config ports) \<noteq> None"
    by (auto simp: CheckAndKillConflictingPorts_def isPortOrder_def dest: checkPorts_fails)
  with found chk show ?thesis by blast
qed

theorem unreadable_holder_is_foreign_witness:
  "fst (findProcessUsingPort unreadableHolder 18080) = 4242
   \<and> readFile unreadableHolder (cmdlinePath 4242) = None
   \<and> findProcessUsingPort unreadableHolder 18080 = (4242, ''unknown'', False)
   \<and> checkAndKillPortConflict unreadableHolder 18080
        = (Some (InUseByForeign 18080 ''unknown'' 4242), [])
   \<and> isPortOrder (oneForward 18080 80) [18080]
   \<and> fst (CheckAndKillConflictingPorts unreadableHolder (oneForward 18080 80) [18080]) \<noteq> None"
proof -
  have found: "fst (findProcessUsingPort unreadableHolder 18080) = 4242"
    by (simp add: unreadableHolder_def heldBy_def findProcessUsingPort_def findProcessWithLsof_def
        strings_TrimSpace_def whiteSpace_def leading_def strconv_Atoi_def isDigit_def digitsValue_def
        nameOrUnknown_def getProcessName_def cmdlinePath_def itoa_def Let_def
        checkAndKillPortConflict_def strings_Contains_def)
  have unread: "readFile unreadableHolder (cmdlinePath 4242) = None"
    by (simp add: unreadableHolder_def heldBy_def)
  have nz: "(4242 :: int) \<noteq> 0" by simp
  have order: "isPortOrder (oneForward 18080 80) [18080]"
    by (simp add: isPortOrder_def allForwards_def oneForward_def)
  have configured: "18080 \<in> set (map LocalPort (allForwards (oneForward 18080 80)))"
    by (simp add: allForwards_def oneForward_def)
  from unreadable_holder_is_foreign [OF found nz unread, of "oneForward 18080 80" "[18080]"]
    found unread order configured
  show ?thesis by simp
qed

text \<open>
  Claim C8, as the code has it. A port held by the program's own PID is never signalled,
  whatever name is read for the PID. Startup goes on when that name contains
  \<^verbatim>\<open>nanoporter\<close>; when it does not, the name is tested before the PID and the check
  fails with the error for a process that is not nanoporter.
\<close>

theorem own_pid_sends_no_signal:
  assumes "findProcessUsingPort env port = (pid, name, err)" and "pid \<noteq> 0"
    and "pid = getpid env"
  shows "snd (checkAndKillPortConflict env port) = []
    \<and> (strings_Contains name ''nanoporter''
         \<longrightarrow> fst (checkAndKillPortConflict env port) = None)
    \<and> (\<not> strings_Contains name ''nanoporter''
         \<longrightarrow> fst (checkAndKillPortConflict env port) = Some (InUseByForeign port name pid))"
proof -
  from findProcessUsingPort_name [OF assms(1,2)] have "\<not> err" by simp
  with assms show ?thesis
    by (simp add: checkAndKillPortConflict_def)
qed

theorem own_pid_sends_no_signal_witness:
  "findProcessUsingPort selfAsNanoporter 18080 = (4242, ''nanoporter'', False)
   \<and> getpid selfAsNanoporter = 4242
   \<and> strings_Contains ''nanoporter'' ''nanoporter''
   \<and> checkAndKillPortConflict selfAsNanoporter 18080 = (None, [])"
proof -
  have found: "findProcessUsingPort selfAsNanoporter 18080 = (4242, ''nanoporter'', False)"
    by (simp add: selfAsNanoporter_def heldBy_def findProcessUsingPort_def findProcessWithLsof_def
        strings_TrimSpace_def whiteSpace_def leading_def strconv_Atoi_def isDigit_def digitsValue_def
        nameOrUnknown_def getProcessName_def cmdlinePath_def itoa_def Let_def
        checkAndKillPortConflict_def strings_Contains_def)
  have nz: "(4242 :: int) \<noteq> 0" by simp
  have self: "4242 = getpid selfAsNanoporter"
    by (simp add: selfAsNanoporter_def heldBy_def)
  have c: "strings_Contains ''nanoporter'' ''nanoporter''"
    by (simp add: strings_Contains_def)
  from own_pid_sends_no_signal [OF found nz self] found self c
  show ?thesis by (simp add: prod_eq_iff)
qed

text \<open>
  The claim C8 as it is written fails: the program runs as PID 4242 from a binary named
  \<^verbatim>\<open>porter\<close> and holds port 18080 itself; the check of the port returns an error.
\<close>

theorem own_pid_foreign_name_counterexample:
  "getpid selfAsPorter = 4242
   \<and> findProcessUsingPort selfAsPorter 18080 = (4242, ''porter'', False)
   \<and> checkAndKillPortConflict selfAsPorter 18080
        = (Some (InUseByForeign 18080 ''porter'' 4242), [])"
  by (simp add: selfAsPorter_def heldBy_def findProcessUsingPort_def findProcessWithLsof_def
        strings_TrimSpace_def whiteSpace_def leading_def strconv_Atoi_def isDigit_def digitsValue_def
        nameOrUnknown_def getProcessName_def cmdlinePath_def itoa_def Let_def
        checkAndKillPortConflict_def strings_Contains_def)

section \<open>Backoff: the delays\<close>

lemma calculateBackoff_zero: "calculateBackoff config 0 = ReconnectDelay config"
  by (simp add: calculateBackoff_def)

lemma shiftLeft_small:
  assumes "n < 64"
  shows "shiftLeft 1 (of_nat n) = 2 ^ n"
proof -
  have "unat (of_nat n :: 64 word) = n"
    using assms by (simp add: unat_of_nat)
  with assms show ?thesis by (simp add: shiftLeft_def)
qed

lemma sint_seconds:
  assumes "n \<le> 33"
  shows "sint (2 ^ n * second) = 2 ^ n * 1000000000"
proof -
  have "(2::int) ^ n \<le> 2 ^ 33"
    using assms by (intro power_increasing) simp_all
  then have b: "(2::int) ^ n * 1000000000 < 2 ^ 63" by simp
  have nn: "- (2 ^ 63) \<le> (2::int) ^ n * 1000000000" 
    by (smt (verit) zero_le_power mult_nonneg_nonneg)
  have "sint (2 ^ n * second) = signed_take_bit 63 ((2::int) ^ n * 1000000000)"
    using sint_sbintrunc' [where 'a = 64, of "2 ^ n * 1000000000"]
    by (simp add: second_def)
  also have "\<dots> = 2 ^ n * 1000000000"
    using b nn by (intro signed_take_bit_int_eq_self) simp_all
  finally show ?thesis .
qed

lemma calculateBackoff_law:
  assumes "1 \<le> n" and "n \<le> 33"
  shows "sint (calculateBackoff config (of_nat n)) = min (2 ^ n) 60 * 1000000000"
proof -
  have un: "unat (of_nat n :: 64 word) = n"
    using assms by (simp add: unat_of_nat)
  with assms have nz: "(of_nat n :: 64 word) \<noteq> 0"
    by (metis unat_gt_0 less_eq_Suc_le One_nat_def)
  have sh: "shiftLeft 1 (of_nat n) = 2 ^ n"
    using assms by (intro shiftLeft_small) simp
  have s: "sint (2 ^ n * second) = 2 ^ n * 1000000000"
    using assms by (intro sint_seconds)
  have s60: "sint (60 * second) = 60000000000"
    by (simp add: second_def)
  have cmp: "(60 * second <s 2 ^ n * second) = ((60::int) < 2 ^ n)"
    by (simp add: word_sless_alt s s60)
  show ?thesis
    using nz by (simp add: calculateBackoff_def sh cmp s s60 min_def Let_def)
qed

lemma calculateBackoff_ge_55:
  assumes "55 \<le> unat r"
  shows "calculateBackoff config r = 0"
proof -
  from assms have nz: "r \<noteq> 0" by (metis unat_gt_0 not_numeral_le_zero not_gr_zero)
  have z: "shiftLeft 1 r * second = 0"
  proof (cases "64 \<le> unat r")
    case True
    then show ?thesis by (simp add: shiftLeft_def)
  next
    case False
    define k where "k = unat r - 55"
    have k: "unat r = 55 + k" "k < 9"
      using assms False by (simp_all add: k_def)
    have d: "(2::nat) ^ (55 + k) * 1000000000 = 2 ^ 64 * (2 ^ k * 1953125)"
      by (simp add: power_add)
    have "2 ^ LENGTH(64) dvd (2::nat) ^ (55 + k) * 1000000000"
      unfolding d by simp
    then have "(word_of_nat (2 ^ (55 + k) * 1000000000) :: 64 word) = 0"
      by (simp only: word_of_nat_eq_0_iff)
    moreover have "(2 ^ (55 + k) * second :: 64 word) = word_of_nat (2 ^ (55 + k) * 1000000000)"
      by (simp add: second_def)
    moreover have "shiftLeft 1 r = 2 ^ (55 + k)"
      using False k by (simp add: shiftLeft_def)
    ultimately show ?thesis by (simp only:)
  qed
  have s60: "sint (60 * second) = 60000000000"
    by (simp add: second_def)
  show ?thesis
    using nz by (simp add: calculateBackoff_def z Let_def word_sless_alt s60)
qed

text \<open>
  Claim C6 at the inputs where the code leaves it: a retry count of 34 gives a negative
  delay and a retry count of 55 gives none at all, by the same overflow of the product.
  From 6 to 33 the delay is 60 seconds (\<open>calculateBackoff_law\<close>), and from 55 on it is 0
  (\<open>calculateBackoff_ge_55\<close>).
\<close>

theorem backoff_exceeds_no_ceiling:
  "sint (calculateBackoff config 34) = - 1266874889709551616
   \<and> calculateBackoff config 34 \<noteq> 60 * second
   \<and> calculateBackoff config 55 = 0
   \<and> 60 * second \<noteq> 0"
proof -
  have "55 \<le> unat (55 :: 64 word)" by simp
  from calculateBackoff_ge_55 [OF this, of config]
  show ?thesis
    by (simp add: calculateBackoff_def [of config 34] shiftLeft_def second_def word_sless_alt)
qed

section \<open>The supervisor: what every reachable state satisfies\<close>

lemma invariant_Initialize: "invariant Initialize"
  by (simp add: invariant_def Initialize_def)

lemma invariant_step:
  assumes "invariant s" and "step config e s = Some s'"
  shows "invariant s'"
proof (cases e)
  case LoopTop
  with assms show ?thesis
    by (auto simp: invariant_def mutate_def setState_def setError_def notifyUpdate_def
        cancel_def isDone_def onReady_def afterEstablish_def Let_def split: if_splits)
next
  case (Attempt a now)
  with assms show ?thesis
    by (cases "attemptError a") (auto simp: invariant_def mutate_def setState_def setError_def notifyUpdate_def
        cancel_def isDone_def onReady_def afterEstablish_def Let_def split: if_splits)
next
  case (EngineEnded err now)
  with assms show ?thesis
    by (auto simp: invariant_def mutate_def setState_def setError_def notifyUpdate_def
        cancel_def isDone_def onReady_def afterEstablish_def Let_def split: if_splits place.splits option.splits)
next
  case ContextDone
  with assms show ?thesis
    by (auto simp: invariant_def mutate_def setState_def setError_def notifyUpdate_def
        cancel_def isDone_def onReady_def afterEstablish_def Let_def split: if_splits place.splits)
next
  case TimerFired
  with assms show ?thesis
    by (auto simp: invariant_def mutate_def setState_def setError_def notifyUpdate_def
        cancel_def isDone_def onReady_def afterEstablish_def Let_def split: if_splits place.splits)
next
  case Stop
  with assms show ?thesis
    by (auto simp: invariant_def mutate_def setState_def setError_def notifyUpdate_def
        cancel_def isDone_def onReady_def afterEstablish_def Let_def split: if_splits place.splits)
next
  case (CheckHealth ok now)
  with assms show ?thesis
    by (auto simp: invariant_def mutate_def setState_def setError_def notifyUpdate_def
        cancel_def isDone_def onReady_def afterEstablish_def Let_def split: if_splits place.splits)
next
  case InstallContext
  with assms show ?thesis
    by (auto simp: invariant_def mutate_def setState_def setError_def notifyUpdate_def
        cancel_def isDone_def onReady_def afterEstablish_def Let_def list_all_iff less_Suc_eq split: if_splits place.splits)
qed

lemma invariant_run:
  "invariant s \<Longrightarrow> run config es s = Some s' \<Longrightarrow> invariant s'"
proof (induction es arbitrary: s)
  case Nil
  then show ?case by simp
next
  case (Cons e es)
  then show ?case
    by (auto split: option.splits dest: invariant_step)
qed

lemma reachable_invariant: "reachable config s \<Longrightarrow> invariant s"
  by (auto simp: reachable_def intro: invariant_run [OF invariant_Initialize])

lemma run_activeSystem:
  "run config [LoopTop, Attempt BecameReady 0] Initialize = Some activeSystem"
  by (simp add: Initialize_def activeSystem_def activeRecord_def mutate_def setState_def
      setError_def notifyUpdate_def onReady_def isDone_def Let_def)

section \<open>The supervisor: the error text and the state\<close>

lemma activeWithoutError_step:
  assumes "list_all activeWithoutError (history s)" and "step config e s = Some s'"
  shows "list_all activeWithoutError (history s')"
proof (cases e)
  case LoopTop
  with assms show ?thesis
    by (auto simp: activeWithoutError_def mutate_def setState_def setError_def
        notifyUpdate_def cancel_def isDone_def onReady_def afterEstablish_def Let_def split: if_splits)
next
  case (Attempt a now)
  with assms show ?thesis
    by (cases "attemptError a") (auto simp: activeWithoutError_def mutate_def setState_def setError_def
        notifyUpdate_def cancel_def isDone_def onReady_def afterEstablish_def Let_def split: if_splits)
next
  case (EngineEnded err now)
  with assms show ?thesis
    by (auto simp: activeWithoutError_def mutate_def setState_def setError_def
        notifyUpdate_def cancel_def isDone_def onReady_def afterEstablish_def Let_def split: if_splits place.splits option.splits)
next
  case ContextDone
  with assms show ?thesis
    by (auto simp: activeWithoutError_def mutate_def setState_def setError_def
        notifyUpdate_def cancel_def isDone_def onReady_def afterEstablish_def Let_def split: if_splits place.splits)
next
  case TimerFired
  with assms show ?thesis
    by (auto simp: activeWithoutError_def mutate_def setState_def setError_def
        notifyUpdate_def cancel_def isDone_def onReady_def afterEstablish_def Let_def split: if_splits place.splits)
next
  case Stop
  with assms show ?thesis
    by (auto simp: activeWithoutError_def mutate_def setState_def setError_def
        notifyUpdate_def cancel_def isDone_def onReady_def afterEstablish_def Let_def split: if_splits place.splits)
next
  case (CheckHealth ok now)
  with assms show ?thesis
    by (auto simp: activeWithoutError_def mutate_def setState_def setError_def
        notifyUpdate_def cancel_def isDone_def onReady_def afterEstablish_def Let_def split: if_splits place.splits)
next
  case InstallContext
  with assms show ?thesis
    by (auto simp: activeWithoutError_def mutate_def setState_def setError_def
        notifyUpdate_def cancel_def isDone_def onReady_def afterEstablish_def Let_def split: if_splits place.splits)
qed

lemma activeWithoutError_run:
  "list_all activeWithoutError (history s) \<Longrightarrow> run config es s = Some s'
     \<Longrightarrow> list_all activeWithoutError (history s')"
proof (induction es arbitrary: s)
  case Nil
  then show ?case by simp
next
  case (Cons e es)
  then show ?case
    by (auto split: option.splits dest: activeWithoutError_step)
qed

text \<open>
  Claim C3, as the code has it. In every run from \<^verbatim>\<open>Initialize\<close>, whenever the supervisor
  is not in the middle of the writes of a transition, and in every record that
  \<^verbatim>\<open>notifyUpdate\<close> publishes, state \<^verbatim>\<open>active\<close> comes with an empty \<^verbatim>\<open>Error\<close>. Nothing more:
  the converse fails, and so does the implication between the writes of a transition.
\<close>

theorem active_has_no_error:
  assumes "run config es Initialize = Some s"
  shows "(State (pf s) = StateActive \<longrightarrow> Error (pf s) = [])
    \<and> (\<forall>r. Notified r \<in> set (history s) \<longrightarrow> State r = StateActive \<longrightarrow> Error r = [])"
proof -
  have "reachable config s"
    using assms by (auto simp: reachable_def)
  then have now: "State (pf s) = StateActive \<longrightarrow> Error (pf s) = []"
    by (auto dest: reachable_invariant simp: invariant_def)
  have "list_all activeWithoutError (history Initialize)"
    by (simp add: Initialize_def)
  from activeWithoutError_run [OF this assms]
  have "\<forall>r. Notified r \<in> set (history s) \<longrightarrow> activeWithoutError (Notified r)"
    by (simp add: list_all_iff)
  then have "\<forall>r. Notified r \<in> set (history s) \<longrightarrow> State r = StateActive \<longrightarrow> Error r = []"
    by (simp add: activeWithoutError_def)
  with now show ?thesis by blast
qed

theorem active_has_no_error_witness:
  "run defaults [LoopTop, Attempt BecameReady 0] Initialize = Some activeSystem
   \<and> State (pf activeSystem) = StateActive \<and> Error (pf activeSystem) = []
   \<and> Notified activeRecord \<in> set (history activeSystem)
   \<and> State activeRecord = StateActive \<and> Error activeRecord = []"
proof -
  have r: "run defaults [LoopTop, Attempt BecameReady 0] Initialize = Some activeSystem"
    by (rule run_activeSystem)
  have m: "Notified activeRecord \<in> set (history activeSystem)"
    by (simp add: activeSystem_def)
  have a: "State activeRecord = StateActive" "State (pf activeSystem) = StateActive"
    by (simp_all add: activeSystem_def activeRecord_def)
  from active_has_no_error [OF r] r m a show ?thesis by blast
qed

text \<open>
  The claim C3 as it is written fails three times over: the record \<^verbatim>\<open>Initialize\<close> makes is
  in \<^verbatim>\<open>starting\<close> with an empty error; when a tunnel comes up after a failure, the write
  of \<^verbatim>\<open>active\<close> comes before the write that clears the error, so the record is \<^verbatim>\<open>active\<close>
  with the old error in between; and a tunnel stopped while active is \<^verbatim>\<open>stopped\<close> with an
  empty error.
\<close>

theorem error_state_counterexample:
  "Error (pf Initialize) = [] \<and> State (pf Initialize) = StateStarting
   \<and> happens [LoopTop, Attempt (FindPodFailed ''pod not found'') 0, TimerFired, LoopTop,
        Attempt BecameReady 9]
   \<and> historyOf [LoopTop, Attempt (FindPodFailed ''pod not found'') 0, TimerFired, LoopTop,
        Attempt BecameReady 9] ! 4
      = Wrote \<lparr>State = StateActive, Error = ''failed to find pod: pod not found'',
          LastCheck = 0, ReconnectAt = 5000000000, RetryCount = 1, ctx = 0\<rparr>
   \<and> happens [LoopTop, Attempt BecameReady 0, Stop, ContextDone, LoopTop]
   \<and> last (historyOf [LoopTop, Attempt BecameReady 0, Stop, ContextDone, LoopTop])
      = Notified \<lparr>State = StateStopped, Error = [], LastCheck = 0, ReconnectAt = 0,
          RetryCount = 0, ctx = 0\<rparr>"
  by (simp add: historyOf_def recordOf_def placeOf_def happens_def Initialize_def
      defaults_def mutate_def setState_def setError_def notifyUpdate_def cancel_def
      isDone_def onReady_def afterEstablish_def Let_def calculateBackoff_def second_def)

section \<open>The supervisor: consecutive failures\<close>

lemma podMissing_round:
  assumes "sup s = AtLoopTop" and "ctx (pf s) \<notin> set (cancelled s)"
  shows "\<exists>s'. run config podMissing s = Some s' \<and> sup s' = AtLoopTop
     \<and> ctx (pf s') = ctx (pf s) \<and> cancelled s' = cancelled s
     \<and> RetryCount (pf s') = RetryCount (pf s) + 1
     \<and> (\<forall>es. waits config (podMissing @ es) s
            = calculateBackoff config (RetryCount (pf s)) # waits config es s')"
  using assms by (simp add: podMissing_def mutate_def setState_def setError_def notifyUpdate_def
      cancel_def isDone_def onReady_def afterEstablish_def Let_def)

lemma waits_failures:
  assumes "sup s = AtLoopTop" and "ctx (pf s) \<notin> set (cancelled s)"
  shows "waits config (failures k) s
     = map (\<lambda>i. calculateBackoff config (RetryCount (pf s) + of_nat i)) [0..<k]"
  using assms
proof (induction k arbitrary: s)
  case 0
  then show ?case by (simp add: failures_def)
next
  case (Suc k)
  from podMissing_round [OF Suc.prems, of config] obtain s' where s':
    "sup s' = AtLoopTop" "ctx (pf s') = ctx (pf s)" "cancelled s' = cancelled s"
    "RetryCount (pf s') = RetryCount (pf s) + 1"
    "\<And>es. waits config (podMissing @ es) s
            = calculateBackoff config (RetryCount (pf s)) # waits config es s'"
    by blast
  have f: "failures (Suc k) = podMissing @ failures k"
    by (simp add: failures_def)
  have ih: "waits config (failures k) s'
     = map (\<lambda>i. calculateBackoff config (RetryCount (pf s') + of_nat i)) [0..<k]"
    using Suc.prems s' by (intro Suc.IH) simp_all
  have "map (\<lambda>i. calculateBackoff config (RetryCount (pf s) + of_nat i)) [0..<Suc k]
     = calculateBackoff config (RetryCount (pf s))
       # map (\<lambda>i. calculateBackoff config (RetryCount (pf s) + 1 + of_nat i)) [0..<k]"
    by (simp add: map_upt_Suc add.assoc del: upt_Suc)
  then show ?case
    using f s'(5) ih s'(4) by simp
qed

lemma waits_from_Initialize:
  "waits config (failures k) Initialize = map (\<lambda>i. calculateBackoff config (of_nat i)) [0..<k]"
proof -
  have "sup Initialize = AtLoopTop" "ctx (pf Initialize) \<notin> set (cancelled Initialize)"
    "RetryCount (pf Initialize) = 0"
    by (simp_all add: Initialize_def)
  from waits_failures [OF this(1,2), of config k] this(3) show ?thesis by simp
qed

lemma first_waits_follow_the_law:
  assumes "j < k" and "j \<le> 33"
  shows "sint (waits config (failures k) Initialize ! j)
     = (if j = 0 then sint (ReconnectDelay config) else min (2 ^ j) 60 * 1000000000)"
proof -
  have "waits config (failures k) Initialize ! j = calculateBackoff config (of_nat j)"
    using assms by (simp add: waits_from_Initialize)
  then show ?thesis
    using assms calculateBackoff_law [of j config]
    by (cases "j = 0") (simp_all add: calculateBackoff_zero)
qed

text \<open>
  Claim C1 at the input where the code leaves it. The supervisor does compute each wait
  from the retry count before it increments it, and the first 34 waits follow the law
  (\<open>first_waits_follow_the_law\<close>). After 34 failures in a row the retry count is 34,
  \<^verbatim>\<open>2^34 * 10^9\<close> no longer fits the 64 bits of a \<^verbatim>\<open>time.Duration\<close>, the product wraps to a
  negative value, and the 35th wait is that value and not 60 seconds.
\<close>

theorem wait_after_34_failures_is_negative:
  "length (waits config (failures 35) Initialize) = 35
   \<and> sint (waits config (failures 35) Initialize ! 34) = - 1266874889709551616
   \<and> waits config (failures 35) Initialize ! 34 \<noteq> 60 * second"
proof -
  have w: "waits config (failures 35) Initialize ! 34 = calculateBackoff config 34"
    by (simp add: waits_from_Initialize)
  have v: "sint (calculateBackoff config 34) = - 1266874889709551616"
    by (simp add: calculateBackoff_def shiftLeft_def second_def word_sless_alt)
  have n: "calculateBackoff config 34 \<noteq> 60 * second"
    by (simp add: calculateBackoff_def shiftLeft_def second_def word_sless_alt)
  show ?thesis
    unfolding w using v n by (simp add: waits_from_Initialize)
qed

section \<open>The supervisor: shutdown\<close>

lemma returned_step:
  "sup s = Returned \<Longrightarrow> step config e s = Some s'
     \<Longrightarrow> sup s' = Returned \<and> State (pf s') = State (pf s)"
  by (cases e) (auto simp: mutate_def setState_def setError_def notifyUpdate_def cancel_def
      isDone_def onReady_def afterEstablish_def Let_def split: if_splits)

lemma returned_is_final:
  "sup s = Returned \<Longrightarrow> run config es s = Some s'
     \<Longrightarrow> sup s' = Returned \<and> State (pf s') = State (pf s)"
proof (induction es arbitrary: s)
  case Nil
  then show ?case by simp
next
  case (Cons e es)
  from Cons.prems obtain s1 where s1: "step config e s = Some s1" "run config es s1 = Some s'"
    by (auto split: option.splits)
  from returned_step [OF Cons.prems(1) s1(1)] Cons.IH [OF _ s1(2)]
  show ?case by simp
qed

text \<open>
  Claim C2 at the input where the code leaves it: the pod is absent, the supervisor sleeps
  out its first backoff, \<^verbatim>\<open>Stop\<close> cancels the context, and the \<^verbatim>\<open>select\<close> of the backoff
  returns from \<^verbatim>\<open>runPortForward\<close>. The record stays \<^verbatim>\<open>reconnecting\<close>; \<^verbatim>\<open>stopped\<close> was never
  written, and nothing writes the state after the supervisor has returned
  (\<open>returned_is_final\<close>).
\<close>

theorem stop_during_backoff_stays_reconnecting:
  "happens [LoopTop, Attempt (FindPodFailed ''pod not found'') 0, Stop, ContextDone]
   \<and> placeOf [LoopTop, Attempt (FindPodFailed ''pod not found'') 0, Stop, ContextDone]
       = Returned
   \<and> recordOf [LoopTop, Attempt (FindPodFailed ''pod not found'') 0, Stop, ContextDone]
       = \<lparr>State = StateReconnecting, Error = ''failed to find pod: pod not found'',
          LastCheck = 0, ReconnectAt = 5000000000, RetryCount = 1, ctx = 0\<rparr>
   \<and> map (State \<circ> observed)
        (historyOf [LoopTop, Attempt (FindPodFailed ''pod not found'') 0, Stop, ContextDone])
       = [StateStarting, StateReconnecting, StateReconnecting, StateReconnecting]"
  by (simp add: historyOf_def recordOf_def placeOf_def happens_def Initialize_def
      defaults_def mutate_def setState_def setError_def notifyUpdate_def cancel_def
      isDone_def onReady_def afterEstablish_def Let_def calculateBackoff_def second_def)

section \<open>The supervisor: the end of the engine and the health check\<close>

lemma run_kickedSystem:
  "run config [LoopTop, Attempt BecameReady 0, CheckHealth False 10, InstallContext,
     ContextDone, LoopTop] Initialize = Some kickedSystem"
  by (simp add: Initialize_def kickedSystem_def activeSystem_def activeRecord_def mutate_def setState_def setError_def notifyUpdate_def cancel_def
      isDone_def onReady_def afterEstablish_def Let_def)

text \<open>
  Claim C5, as the code has it. Every step that takes the record from \<^verbatim>\<open>active\<close> to
  \<^verbatim>\<open>reconnecting\<close> is a return of an error from \<^verbatim>\<open>establishPortForward\<close>, be it the end of
  the engine of an active tunnel or a failed attempt while the record still says \<^verbatim>\<open>active\<close>
  (after a health check kicked the supervisor). In it the supervisor writes the error,
  writes the state \<^verbatim>\<open>reconnecting\<close>, and notifies; only then does it compute the delay
  from the retry count as it still is, and write \<^verbatim>\<open>ReconnectAt\<close> and the incremented
  \<^verbatim>\<open>RetryCount\<close>. The record that is notified carries the old values of both.
\<close>

theorem reconnecting_notifies_before_bump:
  assumes "step config e s = Some s'" and "State (pf s) = StateActive"
    and "State (pf s') = StateReconnecting"
  shows "\<exists>msg now. failure e = Some (msg, now)
     \<and> (let r1 = (pf s)\<lparr>Error := msg\<rparr>;
              r2 = r1\<lparr>State := StateReconnecting\<rparr>;
              delay = calculateBackoff config (RetryCount (pf s));
              r3 = r2\<lparr>ReconnectAt := now + sint delay, RetryCount := RetryCount (pf s) + 1\<rparr>
          in s' = s\<lparr>pf := r3,
                     history := history s @ [Wrote r1, Wrote r2, Notified r2, Wrote r3],
                     sup := InBackoff (ctx (pf s)) delay\<rparr>)"
proof (cases e)
  case LoopTop
  with assms show ?thesis
    by (auto simp: mutate_def setState_def setError_def notifyUpdate_def cancel_def
        isDone_def onReady_def afterEstablish_def Let_def split: if_splits)
next
  case (Attempt a now)
  show ?thesis
  proof (cases "attemptError a")
    case None
    with assms Attempt show ?thesis
      by (auto simp: mutate_def setState_def setError_def notifyUpdate_def cancel_def
        isDone_def onReady_def afterEstablish_def Let_def split: if_splits)
  next
    case (Some msg)
    then have "a \<noteq> BecameReady" by auto
    with assms Attempt Some show ?thesis
      by (auto simp: mutate_def setState_def setError_def notifyUpdate_def cancel_def
        isDone_def onReady_def afterEstablish_def Let_def split: if_splits)
  qed
next
  case (EngineEnded err now)
  with assms show ?thesis
    by (auto simp: mutate_def setState_def setError_def notifyUpdate_def cancel_def
        isDone_def onReady_def afterEstablish_def Let_def split: place.splits)
next
  case ContextDone
  with assms show ?thesis
    by (auto simp: mutate_def setState_def setError_def notifyUpdate_def cancel_def
        isDone_def onReady_def afterEstablish_def Let_def split: if_splits place.splits)
next
  case TimerFired
  with assms show ?thesis
    by (auto simp: mutate_def setState_def setError_def notifyUpdate_def cancel_def
        isDone_def onReady_def afterEstablish_def Let_def split: place.splits)
next
  case Stop
  with assms show ?thesis
    by (auto simp: mutate_def setState_def setError_def notifyUpdate_def cancel_def
        isDone_def onReady_def afterEstablish_def Let_def)
next
  case (CheckHealth ok now)
  with assms show ?thesis
    by (auto simp: mutate_def setState_def setError_def notifyUpdate_def cancel_def
        isDone_def onReady_def afterEstablish_def Let_def split: if_splits)
next
  case InstallContext
  with assms show ?thesis
    by (auto simp: mutate_def setState_def setError_def notifyUpdate_def cancel_def
        isDone_def onReady_def afterEstablish_def Let_def split: if_splits)
qed

theorem reconnecting_notifies_before_bump_witness:
  "reachable defaults activeSystem \<and> State (pf activeSystem) = StateActive
   \<and> step defaults (EngineEnded (Some ''EOF'') 5000) activeSystem
      = Some (activeSystem
          \<lparr>pf := activeRecord\<lparr>State := StateReconnecting, Error := ''port-forward error: EOF'',
                   ReconnectAt := 5000005000, RetryCount := 1\<rparr>,
           history := history activeSystem @
             [Wrote (activeRecord\<lparr>Error := ''port-forward error: EOF''\<rparr>),
              Wrote (activeRecord\<lparr>State := StateReconnecting,
                 Error := ''port-forward error: EOF''\<rparr>),
              Notified (activeRecord\<lparr>State := StateReconnecting,
                 Error := ''port-forward error: EOF''\<rparr>),
              Wrote (activeRecord\<lparr>State := StateReconnecting,
                 Error := ''port-forward error: EOF'',
                 ReconnectAt := 5000005000, RetryCount := 1\<rparr>)],
           sup := InBackoff 0 (5 * second)\<rparr>)
   \<and> reachable defaults kickedSystem \<and> State (pf kickedSystem) = StateActive
   \<and> step defaults (Attempt (FindPodFailed ''pod not found'') 20) kickedSystem
      = Some (kickedSystem
          \<lparr>pf := (pf kickedSystem)\<lparr>State := StateReconnecting,
                   Error := ''failed to find pod: pod not found'',
                   ReconnectAt := 5000000020, RetryCount := 1\<rparr>,
           history := history kickedSystem @
             [Wrote ((pf kickedSystem)\<lparr>Error := ''failed to find pod: pod not found''\<rparr>),
              Wrote ((pf kickedSystem)\<lparr>State := StateReconnecting,
                 Error := ''failed to find pod: pod not found''\<rparr>),
              Notified ((pf kickedSystem)\<lparr>State := StateReconnecting,
                 Error := ''failed to find pod: pod not found''\<rparr>),
              Wrote ((pf kickedSystem)\<lparr>State := StateReconnecting,
                 Error := ''failed to find pod: pod not found'',
                 ReconnectAt := 5000000020, RetryCount := 1\<rparr>)],
           sup := InBackoff 1 (5 * second)\<rparr>)"
proof -
  have d: "calculateBackoff defaults 0 = 5 * second"
    by (simp add: calculateBackoff_def defaults_def)
  have s5: "sint (5 * second) = 5000000000"
    by (simp add: second_def)
  have r1: "reachable defaults activeSystem"
    unfolding reachable_def using run_activeSystem by blast
  have r2: "reachable defaults kickedSystem"
    unfolding reachable_def using run_kickedSystem by blast
  have a1: "State (pf activeSystem) = StateActive"
    by (simp add: activeSystem_def activeRecord_def)
  have a2: "State (pf kickedSystem) = StateActive"
    by (simp add: kickedSystem_def activeRecord_def)
  obtain x where x: "step defaults (EngineEnded (Some ''EOF'') 5000) activeSystem = Some x"
    and xs: "State (pf x) = StateReconnecting"
    by (simp add: activeSystem_def mutate_def setState_def setError_def notifyUpdate_def
        cancel_def isDone_def onReady_def afterEstablish_def Let_def)
  obtain y where y: "step defaults (Attempt (FindPodFailed ''pod not found'') 20) kickedSystem
      = Some y" and ys: "State (pf y) = StateReconnecting"
    by (simp add: kickedSystem_def mutate_def setState_def setError_def notifyUpdate_def
        cancel_def isDone_def onReady_def afterEstablish_def Let_def)
  from reconnecting_notifies_before_bump [OF x a1 xs]
  have x': "x = activeSystem
          \<lparr>pf := activeRecord\<lparr>State := StateReconnecting, Error := ''port-forward error: EOF'',
                   ReconnectAt := 5000005000, RetryCount := 1\<rparr>,
           history := history activeSystem @
             [Wrote (activeRecord\<lparr>Error := ''port-forward error: EOF''\<rparr>),
              Wrote (activeRecord\<lparr>State := StateReconnecting,
                 Error := ''port-forward error: EOF''\<rparr>),
              Notified (activeRecord\<lparr>State := StateReconnecting,
                 Error := ''port-forward error: EOF''\<rparr>),
              Wrote (activeRecord\<lparr>State := StateReconnecting,
                 Error := ''port-forward error: EOF'',
                 ReconnectAt := 5000005000, RetryCount := 1\<rparr>)],
           sup := InBackoff 0 (5 * second)\<rparr>"
    by (simp add: Let_def d s5 activeSystem_def activeRecord_def)
  from reconnecting_notifies_before_bump [OF y a2 ys]
  have y': "y = kickedSystem
          \<lparr>pf := (pf kickedSystem)\<lparr>State := StateReconnecting,
                   Error := ''failed to find pod: pod not found'',
                   ReconnectAt := 5000000020, RetryCount := 1\<rparr>,
           history := history kickedSystem @
             [Wrote ((pf kickedSystem)\<lparr>Error := ''failed to find pod: pod not found''\<rparr>),
              Wrote ((pf kickedSystem)\<lparr>State := StateReconnecting,
                 Error := ''failed to find pod: pod not found''\<rparr>),
              Notified ((pf kickedSystem)\<lparr>State := StateReconnecting,
                 Error := ''failed to find pod: pod not found''\<rparr>),
              Wrote ((pf kickedSystem)\<lparr>State := StateReconnecting,
                 Error := ''failed to find pod: pod not found'',
                 ReconnectAt := 5000000020, RetryCount := 1\<rparr>)],
           sup := InBackoff 1 (5 * second)\<rparr>"
    by (simp add: Let_def d s5 kickedSystem_def activeRecord_def)
  from r1 a1 x r2 a2 y show ?thesis
    unfolding x' y' by (intro conjI)
qed

text \<open>
  The claim C5 as it is written fails: the engine of an active tunnel ends with the error
  \<^verbatim>\<open>EOF\<close> at the instant 5000; the record is notified with a retry count of 0 and the
  \<^verbatim>\<open>ReconnectAt\<close> it had, and both are written after that.
\<close>

theorem notification_precedes_bump_counterexample:
  "happens [LoopTop, Attempt BecameReady 0, EngineEnded (Some ''EOF'') 5000]
   \<and> drop 6 (historyOf [LoopTop, Attempt BecameReady 0, EngineEnded (Some ''EOF'') 5000])
      = [Notified \<lparr>State = StateReconnecting, Error = ''port-forward error: EOF'',
           LastCheck = 0, ReconnectAt = 0, RetryCount = 0, ctx = 0\<rparr>,
         Wrote \<lparr>State = StateReconnecting, Error = ''port-forward error: EOF'',
           LastCheck = 0, ReconnectAt = 5000005000, RetryCount = 1, ctx = 0\<rparr>]"
  by (simp add: historyOf_def recordOf_def placeOf_def happens_def Initialize_def
      defaults_def mutate_def setState_def setError_def notifyUpdate_def cancel_def
      isDone_def onReady_def afterEstablish_def Let_def calculateBackoff_def second_def)



text \<open>
  The other order: the supervisor reads \<^verbatim>\<open>pf.ctx\<close> at the top of its loop before the health
  check has installed the new context. It finds the old one cancelled, writes \<^verbatim>\<open>stopped\<close>
  and returns.
\<close>

lemma probe_race_stops_supervisor:
  assumes "reachable config s" and "sup s = WaitEngine (ctx (pf s))"
  shows "\<exists>s'. run config [CheckHealth False t, ContextDone, LoopTop, InstallContext] s = Some s'
     \<and> sup s' = Returned \<and> State (pf s') = StateStopped"
proof -
  from reachable_invariant [OF assms(1)] assms(2)
  have "State (pf s) = StateActive"
    by (auto simp: invariant_def)
  with assms(2) show ?thesis
    by (simp add: mutate_def setState_def setError_def notifyUpdate_def cancel_def
      isDone_def onReady_def afterEstablish_def Let_def)
qed


section \<open>The pod resolver: what a resolved name is\<close>

text \<open>
  A name \<^verbatim>\<open>findPod\<close> returns for a service is the name of a pod in phase \<^verbatim>\<open>Running\<close> that
  the cluster listed under the rendered selector of the service. What the cluster lists
  for the rendering of an empty selector is the cluster's and the library's to say.
\<close>

lemma findPod_service_running:
  assumes "Type forward \<noteq> ''pod''" and "findPod cluster forward = Inr name"
  shows "\<exists>selector pods pod.
      getServiceSelector cluster (Namespace forward) (Service forward) = Inr selector
      \<and> listPods cluster (Namespace forward) (formatLabelSelector cluster selector) = Inr pods
      \<and> pod \<in> set pods \<and> podPhase pod = ''Running'' \<and> podName pod = name"
proof -
  from assms obtain selector pods pod where
    s: "getServiceSelector cluster (Namespace forward) (Service forward) = Inr selector" and
    l: "listPods cluster (Namespace forward) (formatLabelSelector cluster selector) = Inr pods" and
    f: "find (\<lambda>pod. podPhase pod = ''Running'') pods = Some pod" and
    n: "podName pod = name"
    by (auto simp: findPod_def split: sum.splits option.splits)
  from f have "pod \<in> set pods \<and> podPhase pod = ''Running''"
    by (auto simp: find_Some_iff)
  with s l n show ?thesis by blast
qed

end
